theory Spec2Isabelle
  imports Complex_Main
begin

section \<open>The buyer risk engine of \<^verbatim>\<open>src/api.py\<close>\<close>

text \<open>
  The engine is the class \<^verbatim>\<open>BuyerRiskAssessor\<close>. Its methods are embedded below under
  their own names, without the leading underscore (an Isabelle name starts with a letter).

  Conventions of the embedding:
  \<^item> The profile is the dictionary \<^verbatim>\<open>BuyerData.dict()\<close>: every key of the pydantic model is
    present, so the defaults of the \<^verbatim>\<open>.get(key, default)\<close> lookups never apply. The only
    field that may be \<^verbatim>\<open>None\<close> is \<^verbatim>\<open>PURCHASER_NAME_FROM_HOUSESIGMA\<close> (\<^verbatim>\<open>Optional[str]\<close>).
  \<^item> Python \<^verbatim>\<open>float\<close> fields are real numbers: arithmetic is exact, the rounding of IEEE
    doubles (and NaN, infinities) is not modelled.
  \<^item> A \<^verbatim>\<open>str\<close> is a \<open>string\<close>; a \<open>char\<close> stands for a code point below 256.
  \<^item> An exception is a value \<open>Inl e\<close> of the sum type \<open>error + 'a\<close>.
  \<^item> The only mutable attribute of the engine object is \<^verbatim>\<open>self.REASONS\<close>; a method that
    touches it takes the object and returns it, also when it raises.
\<close>

subsection \<open>Data model\<close>

datatype error = IndexError | ZeroDivisionError

record CoSigner =
  CO_SIGNER_NAME_FROM_APS :: string
  CO_SIGNER_NAME_FROM_ID :: string
  CO_SIGNER_ADDRESS_FROM_APS :: string
  CO_SIGNER_ADDRESS_LIST_FROM_LANDREGISTRY :: "string list"
  CO_SIGNER_ALL_PROPERTIES_PURCHASE_PRICE_FROM_LANDREGISTRY :: "real list"
  CO_SIGNER_ALL_PROPERTIES_VALUE_FROM_AVM :: "real list"
  CO_SIGNER_ALL_PROPERTIES_TOTAL_DEBT_FROM_PURVIEW :: "real list"
  CO_SIGNER_ALL_PROPERTIES_EQUITY :: "real list"

record BuyerData =
  PURCHASER_NAME_FROM_APS :: string
  PURCHASER_NAME_FROM_ID :: string
  PURCHASER_NAME_FROM_HOUSESIGMA :: "string option"
  PURCHASER_ADDRESS_FROM_APS :: string
  PURCHASER_ADDRESS_FROM_ID :: string
  PURCHASER_ADDRESS_LIST_FROM_LANDREGISTRY :: "string list"
  PURCHASER_AGE_FROM_ID :: int
  PURCHASER_ALL_PROPERTIES_PURCHASE_PRICE_FROM_LANDREGISTRY :: "real list"
  PURCHASER_ALL_PROPERTIES_VALUE_FROM_AVM :: "real list"
  PURCHASER_ALL_PROPERTIES_TOTAL_DEBT_FROM_PURVIEW :: "real list"
  PURCHASER_ALL_PROPERTIES_EQUITY :: "real list"
  PURCHASER_DEPOSIT_PAID_FROM_APS :: real
  PURCHASER_ID_ISSUE_DATE :: string
  PURCHASER_DRIVER_LICENSE_TYPE :: string
  CO_SIGNER_LIST_FROM_APS :: "CoSigner list"
  DISTANCE :: real
  PRIMARY_RESIDENCE_PURCHASE_PRICE_FROM_LANDREGISTRY :: real
  PRIMARY_RESIDENCE_VALUE_FROM_AVM :: real
  PRIMARY_RESIDENCE_TOTAL_DEBT_FROM_PURVIEW :: real
  PRIMARY_RESIDENCE_EQUITY :: real
  PRIMARY_RESIDENCE_TITLE_NAMES :: "string list"
  PROPERTY_PRICE :: real
  OTHER_DEPOSIT_PAID_NAME_LIST_FROM_APS :: "string list"
  MORTGAGE_APPROVAL :: bool
  MORTGAGE_APPROVAL_NAMES :: "string list"

text \<open>The value pydantic gives \<^verbatim>\<open>PURCHASER_NAME_FROM_HOUSESIGMA\<close> when the request omits it.\<close>

definition HOUSESIGMA_default :: "string option" where
  "HOUSESIGMA_default = Some []"

text \<open>The engine object: \<^verbatim>\<open>__init__\<close> sets six constant tier names and \<^verbatim>\<open>REASONS = []\<close>.\<close>

record BuyerRiskAssessor =
  REASONS :: "string list"

definition NO_RISK :: string where "NO_RISK = ''No Risk''"
definition VERY_LOW :: string where "VERY_LOW = ''Very Low''"
definition LOW :: string where "LOW = ''Low''"
definition MEDIUM :: string where "MEDIUM = ''Medium''"
definition HIGH :: string where "HIGH = ''High''"
definition VERY_HIGH :: string where "VERY_HIGH = ''Very High''"

subsection \<open>Python primitives\<close>

text \<open>\<^verbatim>\<open>xs.index(x)\<close>: the position of the first occurrence; \<open>None\<close> is the \<^verbatim>\<open>ValueError\<close>.\<close>

fun index_of :: "'a list \<Rightarrow> 'a \<Rightarrow> nat option" where
  "index_of [] x = None"
| "index_of (y # ys) x = (if y = x then Some 0 else map_option Suc (index_of ys x))"

text \<open>\<^verbatim>\<open>xs[i]\<close>: an index from \<open>-len\<close> to \<open>-1\<close> counts from the end, any other one out of range raises.\<close>

definition py_getitem :: "'a list \<Rightarrow> int \<Rightarrow> error + 'a" where
  "py_getitem xs i =
     (if 0 \<le> i \<and> i < int (length xs) then Inr (xs ! nat i)
      else if - int (length xs) \<le> i \<and> i < 0 then Inr (xs ! nat (int (length xs) + i))
      else Inl IndexError)"

text \<open>\<^verbatim>\<open>a / b\<close> on numbers.\<close>

definition py_truediv :: "real \<Rightarrow> real \<Rightarrow> error + real" where
  "py_truediv a b = (if b = 0 then Inl ZeroDivisionError else Inr (a / b))"

text \<open>\<^verbatim>\<open>str.isspace\<close> on one character, for the code points below 256.\<close>

definition isspace :: "char \<Rightarrow> bool" where
  "isspace c =
     (let n = (of_char c :: nat)
      in (9 \<le> n \<and> n \<le> 13) \<or> (28 \<le> n \<and> n \<le> 32) \<or> n = 133 \<or> n = 160)"

text \<open>
  \<^verbatim>\<open>s.split()\<close>: the maximal runs of non-space characters, in order. \<open>split_from w s\<close> has
  read the characters \<open>w\<close> of the current word.
\<close>

fun split_from :: "string \<Rightarrow> string \<Rightarrow> string list" where
  "split_from w [] = (if w = [] then [] else [w])"
| "split_from w (c # cs) =
     (if isspace c then (if w = [] then split_from [] cs else w # split_from [] cs)
      else split_from (w @ [c]) cs)"

definition py_split :: "string \<Rightarrow> string list" where
  "py_split s = split_from [] s"

text \<open>\<^verbatim>\<open>s.split()[-1]\<close>.\<close>

definition last_word :: "string \<Rightarrow> error + string" where
  "last_word s = py_getitem (py_split s) (- 1)"

text \<open>\<^verbatim>\<open>str(n)\<close> of an \<^verbatim>\<open>int\<close>, as an f-string interpolates it.\<close>

definition digit_char :: "nat \<Rightarrow> char" where
  "digit_char d = char_of (48 + d)"

fun str_nat :: "nat \<Rightarrow> string" where
  "str_nat n = (if n < 10 then [digit_char n] else str_nat (n div 10) @ [digit_char (n mod 10)])"

definition str_int :: "int \<Rightarrow> string" where
  "str_int i = (if i < 0 then CHR ''-'' # str_nat (nat (- i)) else str_nat (nat i))"

subsection \<open>The escalation ladder\<close>

definition risk_order :: "string list" where
  "risk_order = [VERY_LOW, LOW, MEDIUM, HIGH, VERY_HIGH]"

definition increase_risk :: "string \<Rightarrow> int \<Rightarrow> error + string" where
  "increase_risk current_risk levels =
     (case index_of risk_order current_risk of
        None \<Rightarrow> Inr current_risk
      | Some current_index \<Rightarrow>
          (let new_index = min (int current_index + levels) (int (length risk_order) - 1)
           in py_getitem risk_order new_index))"

text \<open>The order of the ladder, to state that a tier is not below another one.\<close>

definition ladder_le :: "string \<Rightarrow> string \<Rightarrow> bool" where
  "ladder_le a b =
     (case index_of risk_order a of
        None \<Rightarrow> False
      | Some i \<Rightarrow> (case index_of risk_order b of None \<Rightarrow> False | Some j \<Rightarrow> i \<le> j))"

subsection \<open>Predicates on the profile\<close>

definition check_ownership :: "BuyerData \<Rightarrow> bool" where
  "check_ownership buyer_data =
     (if PRIMARY_RESIDENCE_TITLE_NAMES buyer_data \<noteq> [] then True
      else if PURCHASER_ADDRESS_LIST_FROM_LANDREGISTRY buyer_data \<noteq> [] then True
      else list_ex (\<lambda>cosigner. CO_SIGNER_ADDRESS_LIST_FROM_LANDREGISTRY cosigner \<noteq> [])
             (CO_SIGNER_LIST_FROM_APS buyer_data))"

definition has_different_addresses :: "BuyerData \<Rightarrow> bool" where
  "has_different_addresses buyer_data =
     (PURCHASER_ADDRESS_FROM_ID buyer_data \<noteq> PURCHASER_ADDRESS_FROM_APS buyer_data)"

text \<open>\<^verbatim>\<open>if age and (age < 30 or age > 60)\<close>: an \<^verbatim>\<open>int\<close> is true when it is not zero.\<close>

definition has_high_risk_overrides :: "BuyerData \<Rightarrow> bool" where
  "has_high_risk_overrides buyer_data =
     (let deposit_parties = OTHER_DEPOSIT_PAID_NAME_LIST_FROM_APS buyer_data;
          purchaser_name = PURCHASER_NAME_FROM_APS buyer_data;
          mortgage_names = MORTGAGE_APPROVAL_NAMES buyer_data;
          age = PURCHASER_AGE_FROM_ID buyer_data
      in if DISTANCE buyer_data > 75 then True
         else if length deposit_parties \<noteq> 1 \<or> purchaser_name \<notin> set deposit_parties then True
         else if length mortgage_names > 1 \<or> purchaser_name \<notin> set mortgage_names then True
         else if age \<noteq> 0 \<and> (age < 30 \<or> age > 60) then True
         else if has_different_addresses buyer_data then True
         else False)"

definition is_buyer_on_primary_residence_title :: "BuyerData \<Rightarrow> bool" where
  "is_buyer_on_primary_residence_title buyer_data =
     (PURCHASER_NAME_FROM_APS buyer_data \<in> set (PRIMARY_RESIDENCE_TITLE_NAMES buyer_data))"

text \<open>
  The list \<^verbatim>\<open>[PURCHASER_NAME_FROM_APS] + [c["CO_SIGNER_NAME_FROM_APS"] for c in ...]\<close> that
  both party predicates build.
\<close>

definition aps_names :: "BuyerData \<Rightarrow> string list" where
  "aps_names buyer_data =
     PURCHASER_NAME_FROM_APS buyer_data #
     map CO_SIGNER_NAME_FROM_APS (CO_SIGNER_LIST_FROM_APS buyer_data)"

text \<open>
  The \<^verbatim>\<open>any(...)\<close> over the title names: it stops at the first name that matches, and the
  \<^verbatim>\<open>name.split()[-1]\<close> of a name it reaches may raise.
\<close>

fun any_related :: "string \<Rightarrow> string list \<Rightarrow> string list \<Rightarrow> error + bool" where
  "any_related purchaser_last_name parties [] = Inr False"
| "any_related purchaser_last_name parties (name # owner_names) =
     (case last_word name of
        Inl e \<Rightarrow> Inl e
      | Inr l \<Rightarrow>
          if l = purchaser_last_name \<and> name \<notin> set parties then Inr True
          else any_related purchaser_last_name parties owner_names)"

definition has_related_parties_not_on_aps :: "BuyerData \<Rightarrow> error + bool" where
  "has_related_parties_not_on_aps buyer_data =
     (case last_word (PURCHASER_NAME_FROM_APS buyer_data) of
        Inl e \<Rightarrow> Inl e
      | Inr purchaser_last_name \<Rightarrow>
          any_related purchaser_last_name (aps_names buyer_data)
            (PRIMARY_RESIDENCE_TITLE_NAMES buyer_data))"

definition is_missing_coowner_on_aps :: "BuyerData \<Rightarrow> bool" where
  "is_missing_coowner_on_aps buyer_data =
     list_ex (\<lambda>owner. owner \<notin> set (aps_names buyer_data))
       (PRIMARY_RESIDENCE_TITLE_NAMES buyer_data)"

subsection \<open>Sequencing\<close>

text \<open>
  A statement that may raise, outside and inside a method that carries the engine object.
  After an exception nothing more runs, and the object stays as it was at that point.
\<close>

definition on_ok :: "error + 'a \<Rightarrow> ('a \<Rightarrow> error + 'b) \<Rightarrow> error + 'b" where
  "on_ok m f = (case m of Inl e \<Rightarrow> Inl e | Inr x \<Rightarrow> f x)"

type_synonym 'a run = "(error + 'a) \<times> BuyerRiskAssessor"

definition and_then :: "'a run \<Rightarrow> ('a \<Rightarrow> BuyerRiskAssessor \<Rightarrow> 'b run) \<Rightarrow> 'b run" where
  "and_then m f = (case m of (Inl e, self) \<Rightarrow> (Inl e, self) | (Inr x, self) \<Rightarrow> f x self)"

text \<open>\<^verbatim>\<open>self.REASONS.append(reason)\<close>.\<close>

definition append_reason :: "BuyerRiskAssessor \<Rightarrow> string \<Rightarrow> BuyerRiskAssessor" where
  "append_reason self reason = self\<lparr>REASONS := REASONS self @ [reason]\<rparr>"

text \<open>
  The pair of statements
  \<^verbatim>\<open>risk_level = self._increase_risk(risk_level, levels); self.REASONS.append(reason)\<close>.
\<close>

definition escalate_with_reason ::
  "string \<Rightarrow> int \<Rightarrow> string \<Rightarrow> BuyerRiskAssessor \<Rightarrow> string run" where
  "escalate_with_reason risk_level levels reason self =
     (case increase_risk risk_level levels of
        Inl e \<Rightarrow> (Inl e, self)
      | Inr r \<Rightarrow> (Inr r, append_reason self reason))"

text \<open>\<^verbatim>\<open>(amount / price) * 100 if price > 0 else 0\<close>, of both branch evaluators.\<close>

definition pct_of :: "real \<Rightarrow> real \<Rightarrow> real" where
  "pct_of amount price = (if price > 0 then (amount / price) * 100 else 0)"

subsection \<open>The non-owner branch\<close>

text \<open>The block "Price tier checks (Conditions 1-4)".\<close>

definition price_tier_checks :: "string \<Rightarrow> real \<Rightarrow> real \<Rightarrow> string" where
  "price_tier_checks risk_level price deposit_pct =
     (if price < 800000 then
        (if deposit_pct > 25 then LOW
         else if deposit_pct > 15 then MEDIUM
         else risk_level)
      else if 800000 \<le> price \<and> price \<le> 1000000 then
        (if deposit_pct > 20 then MEDIUM else risk_level)
      else if 1000000 < price \<and> price \<le> 1500000 then
        (if deposit_pct > 25 then MEDIUM else risk_level)
      else if price > 1500000 then
        (if deposit_pct > 25 then MEDIUM else risk_level)
      else risk_level)"

text \<open>The block "Related parties check" of the non-owner branch.\<close>

definition related_parties_check_non_owner ::
  "BuyerData \<Rightarrow> real \<Rightarrow> string \<times> string list \<Rightarrow> error + (string \<times> string list)" where
  "related_parties_check_non_owner buyer_data price st =
     (case st of (risk_level, actions) \<Rightarrow>
        on_ok (has_related_parties_not_on_aps buyer_data) (\<lambda>related.
          if related then
            on_ok (increase_risk risk_level 1) (\<lambda>risk_level.
            on_ok (if price > 1000000 then increase_risk risk_level 2 else Inr risk_level)
              (\<lambda>risk_level. Inr (risk_level, actions @ [''Add related parties to APS''])))
          else Inr (risk_level, actions)))"

definition assess_non_homeowner :: "BuyerData \<Rightarrow> error + (string \<times> string list)" where
  "assess_non_homeowner buyer_data =
     (let risk_level = NO_RISK;
          actions = [];
          price = PROPERTY_PRICE buyer_data;
          deposit = PURCHASER_DEPOSIT_PAID_FROM_APS buyer_data;
          deposit_pct = pct_of deposit price;
          risk_level = price_tier_checks risk_level price deposit_pct;
          risk_level = (if has_high_risk_overrides buyer_data then HIGH else risk_level)
      in on_ok (related_parties_check_non_owner buyer_data price (risk_level, actions))
           (\<lambda>(risk_level, actions).
              let actions =
                    (if PURCHASER_AGE_FROM_ID buyer_data < 30
                        \<and> \<not> is_buyer_on_primary_residence_title buyer_data
                     then actions @ [''Request to add co-signers''] else actions);
                  actions = actions @ [''Request 25% downpayment proof'']
              in Inr (risk_level, actions)))"

subsection \<open>The owner branch\<close>

text \<open>The block "Home value to price ratio": each of its three cases assigns the tier.\<close>

definition value_ratio_check :: "real \<Rightarrow> real \<Rightarrow> string" where
  "value_ratio_check home_value price =
     (if home_value \<ge> 0.75 * price then LOW
      else if 0.6 * price \<le> home_value \<and> home_value < 0.75 * price then MEDIUM
      else HIGH)"

text \<open>The block "Equity checks".\<close>

definition equity_checks :: "real \<Rightarrow> string \<Rightarrow> BuyerRiskAssessor \<Rightarrow> string run" where
  "equity_checks equity_pct risk_level self =
     (if equity_pct < 5 then (Inr VERY_HIGH, append_reason self ''Very low equity (<5%)'')
      else if equity_pct < 15 then
        escalate_with_reason risk_level 2 ''Low equity (5-15%)'' self
      else if equity_pct < 25 then
        escalate_with_reason risk_level 1 ''Moderate equity (15-25%)'' self
      else (Inr risk_level, self))"

text \<open>The block "Related parties check" of the owner branch.\<close>

definition related_parties_check_owner ::
  "BuyerData \<Rightarrow> string \<times> string list \<Rightarrow> BuyerRiskAssessor \<Rightarrow> (string \<times> string list) run" where
  "related_parties_check_owner buyer_data st self =
     (case st of (risk_level, actions) \<Rightarrow>
        (case has_related_parties_not_on_aps buyer_data of
           Inl e \<Rightarrow> (Inl e, self)
         | Inr related \<Rightarrow>
             if related then
               (case on_ok (increase_risk risk_level 1) (\<lambda>risk_level. increase_risk risk_level 2) of
                  Inl e \<Rightarrow> (Inl e, self)
                | Inr risk_level \<Rightarrow>
                    (Inr (risk_level, actions @ [''Add related parties to APS'']),
                     append_reason self ''Same last name different addresses.''))
             else (Inr (risk_level, actions), self)))"

text \<open>The block "Missing co-owner check".\<close>

definition missing_coowner_check ::
  "BuyerData \<Rightarrow> string \<times> string list \<Rightarrow> BuyerRiskAssessor \<Rightarrow> (string \<times> string list) run" where
  "missing_coowner_check buyer_data st self =
     (case st of (risk_level, actions) \<Rightarrow>
        if is_missing_coowner_on_aps buyer_data then
          and_then (escalate_with_reason risk_level 2 ''Missing co-owner on APS'' self)
            (\<lambda>risk_level self. (Inr (risk_level, actions), self))
        else (Inr (risk_level, actions), self))"

definition assess_homeowner ::
  "BuyerRiskAssessor \<Rightarrow> BuyerData \<Rightarrow> (string \<times> string list) run" where
  "assess_homeowner self buyer_data =
     (let risk_level = MEDIUM;
          actions = [];
          price = PROPERTY_PRICE buyer_data;
          home_value = PRIMARY_RESIDENCE_VALUE_FROM_AVM buyer_data;
          equity = PRIMARY_RESIDENCE_EQUITY buyer_data;
          equity_pct = pct_of equity price;
          risk_level = value_ratio_check home_value price
      in and_then
           (and_then
              (and_then (equity_checks equity_pct risk_level self)
                 (\<lambda>risk_level. related_parties_check_owner buyer_data (risk_level, actions)))
              (missing_coowner_check buyer_data))
           (\<lambda>(risk_level, actions) self.
              (Inr (risk_level, actions @ [''Verify property ownership and equity'']), self)))"

subsection \<open>The general checks\<close>

text \<open>
  \<^verbatim>\<open>_apply_general_checks\<close> is a sequence of ten \<^verbatim>\<open>if\<close> statements on the local
  \<^verbatim>\<open>risk_level\<close> and on \<^verbatim>\<open>self.REASONS\<close>; each one is a definition, in the order of the source.
\<close>

definition name_id_aps_check :: "BuyerData \<Rightarrow> string \<Rightarrow> BuyerRiskAssessor \<Rightarrow> string run" where
  "name_id_aps_check buyer_data risk_level self =
     (if PURCHASER_NAME_FROM_APS buyer_data \<noteq> PURCHASER_NAME_FROM_ID buyer_data
      then (Inr VERY_HIGH, append_reason self ''Name mismatch between ID and APS'')
      else (Inr risk_level, self))"

definition name_aps_housesigma_check ::
  "BuyerData \<Rightarrow> string \<Rightarrow> BuyerRiskAssessor \<Rightarrow> string run" where
  "name_aps_housesigma_check buyer_data risk_level self =
     (if Some (PURCHASER_NAME_FROM_APS buyer_data) \<noteq> PURCHASER_NAME_FROM_HOUSESIGMA buyer_data
      then (Inr VERY_HIGH, append_reason self ''Name mismatch between APS and HOUSESIGMA'')
      else (Inr risk_level, self))"

definition name_id_housesigma_check ::
  "BuyerData \<Rightarrow> string \<Rightarrow> BuyerRiskAssessor \<Rightarrow> string run" where
  "name_id_housesigma_check buyer_data risk_level self =
     (if Some (PURCHASER_NAME_FROM_ID buyer_data) \<noteq> PURCHASER_NAME_FROM_HOUSESIGMA buyer_data
      then (Inr VERY_HIGH, append_reason self ''Name mismatch between ID and HOUSESIGMA'')
      else (Inr risk_level, self))"

definition address_consistency_check ::
  "BuyerData \<Rightarrow> string \<Rightarrow> BuyerRiskAssessor \<Rightarrow> string run" where
  "address_consistency_check buyer_data risk_level self =
     (if PURCHASER_ADDRESS_FROM_ID buyer_data \<noteq> PURCHASER_ADDRESS_FROM_APS buyer_data
      then (Inr VERY_HIGH, append_reason self ''Address mismatch between ID and APS'')
      else (Inr risk_level, self))"

definition land_registry_check ::
  "BuyerData \<Rightarrow> string \<Rightarrow> BuyerRiskAssessor \<Rightarrow> string run" where
  "land_registry_check buyer_data risk_level self =
     (if PURCHASER_ADDRESS_FROM_APS buyer_data
           \<notin> set (PURCHASER_ADDRESS_LIST_FROM_LANDREGISTRY buyer_data)
      then
        (Inr VERY_HIGH,
         if PURCHASER_ADDRESS_LIST_FROM_LANDREGISTRY buyer_data \<noteq> []
         then append_reason self ''Address mismatch APS and LAND REGISTRY''
         else append_reason self ''Address in APS not found in LAND REGISTRY - empty'')
      else (Inr risk_level, self))"

definition distance_check :: "BuyerData \<Rightarrow> string \<Rightarrow> BuyerRiskAssessor \<Rightarrow> string run" where
  "distance_check buyer_data risk_level self =
     (if DISTANCE buyer_data > 75
      then escalate_with_reason risk_level 1 ''Long distance (>75km)'' self
      else (Inr risk_level, self))"

definition deposit_paid_by_others_check ::
  "BuyerData \<Rightarrow> string \<Rightarrow> BuyerRiskAssessor \<Rightarrow> string run" where
  "deposit_paid_by_others_check buyer_data risk_level self =
     (let deposit_parties = OTHER_DEPOSIT_PAID_NAME_LIST_FROM_APS buyer_data;
          purchaser_name = PURCHASER_NAME_FROM_APS buyer_data
      in if length deposit_parties \<noteq> 1 \<or> purchaser_name \<notin> set deposit_parties
         then (Inr VERY_HIGH, append_reason self ''Deposit paid by others'')
         else (Inr risk_level, self))"

definition mortgage_approval_parties_check ::
  "BuyerData \<Rightarrow> string \<Rightarrow> BuyerRiskAssessor \<Rightarrow> string run" where
  "mortgage_approval_parties_check buyer_data risk_level self =
     (let mortgage_names = MORTGAGE_APPROVAL_NAMES buyer_data;
          purchaser_name = PURCHASER_NAME_FROM_APS buyer_data
      in if length mortgage_names > 1 \<or> purchaser_name \<notin> set mortgage_names
         then escalate_with_reason risk_level 1 ''Multiple mortgage parties'' self
         else (Inr risk_level, self))"

text \<open>The reason \<^verbatim>\<open>f"Age risk ({age} years)"\<close>.\<close>

definition age_reason :: "int \<Rightarrow> string" where
  "age_reason age = ''Age risk ('' @ str_int age @ '' years)''"

definition age_check :: "BuyerData \<Rightarrow> string \<Rightarrow> BuyerRiskAssessor \<Rightarrow> string run" where
  "age_check buyer_data risk_level self =
     (let age = PURCHASER_AGE_FROM_ID buyer_data
      in if age \<noteq> 0 \<and> (age < 30 \<or> age > 60)
         then escalate_with_reason risk_level 1 (age_reason age) self
         else (Inr risk_level, self))"

definition multiple_properties_check ::
  "BuyerData \<Rightarrow> string \<Rightarrow> BuyerRiskAssessor \<Rightarrow> string run" where
  "multiple_properties_check buyer_data risk_level self =
     (if length (PURCHASER_ALL_PROPERTIES_VALUE_FROM_AVM buyer_data) > 1
      then escalate_with_reason risk_level 1 ''Multiple property ownership'' self
      else (Inr risk_level, self))"

text \<open>The checks that run before the age check, and the whole pass.\<close>

definition checks_before_age ::
  "BuyerRiskAssessor \<Rightarrow> BuyerData \<Rightarrow> string \<Rightarrow> string run" where
  "checks_before_age self buyer_data current_risk =
     foldl and_then (Inr current_risk, self)
       [name_id_aps_check buyer_data,
        name_aps_housesigma_check buyer_data,
        name_id_housesigma_check buyer_data,
        address_consistency_check buyer_data,
        land_registry_check buyer_data,
        distance_check buyer_data,
        deposit_paid_by_others_check buyer_data,
        mortgage_approval_parties_check buyer_data]"

definition apply_general_checks ::
  "BuyerRiskAssessor \<Rightarrow> BuyerData \<Rightarrow> string \<Rightarrow> string list \<Rightarrow> string run" where
  "apply_general_checks self buyer_data current_risk actions =
     and_then
       (and_then (checks_before_age self buyer_data current_risk) (age_check buyer_data))
       (multiple_properties_check buyer_data)"

text \<open>The ten checks in the order \<^verbatim>\<open>_apply_general_checks\<close> runs them.\<close>

definition general_checks ::
  "(BuyerData \<Rightarrow> string \<Rightarrow> BuyerRiskAssessor \<Rightarrow> string run) list" where
  "general_checks =
     [name_id_aps_check, name_aps_housesigma_check, name_id_housesigma_check,
      address_consistency_check, land_registry_check, distance_check,
      deposit_paid_by_others_check, mortgage_approval_parties_check,
      age_check, multiple_properties_check]"

subsection \<open>The risk factors\<close>

text \<open>
  A risk factor is an f-string of \<^verbatim>\<open>_get_risk_factors\<close>; the number it formats is kept as a
  number (the formatting of a float is not modelled).
\<close>

datatype risk_factor =
    First_time_homebuyer
  | Existing_property_owner
  | Home_value_to_price_ratio real
  | Deposit real
  | Long_distance real
  | Age_risk_factor int

text \<open>The two divisions by the price of \<^verbatim>\<open>_get_risk_factors\<close>, in the order they run.\<close>

definition home_value_to_price :: "BuyerData \<Rightarrow> error + real" where
  "home_value_to_price buyer_data =
     py_truediv (PRIMARY_RESIDENCE_VALUE_FROM_AVM buyer_data) (PROPERTY_PRICE buyer_data)"

definition reported_deposit_pct :: "BuyerData \<Rightarrow> error + real" where
  "reported_deposit_pct buyer_data =
     on_ok (py_truediv (PURCHASER_DEPOSIT_PAID_FROM_APS buyer_data) (PROPERTY_PRICE buyer_data))
       (\<lambda>q. Inr (q * 100))"

definition get_risk_factors :: "BuyerData \<Rightarrow> error + risk_factor list" where
  "get_risk_factors buyer_data =
     (let factors =
            (if \<not> check_ownership buyer_data then [First_time_homebuyer]
             else [Existing_property_owner])
      in on_ok (home_value_to_price buyer_data) (\<lambda>ratio.
           let factors = factors @ [Home_value_to_price_ratio ratio]
           in on_ok (reported_deposit_pct buyer_data) (\<lambda>deposit_pct.
                let factors = factors @ [Deposit deposit_pct];
                    factors =
                      (if DISTANCE buyer_data > 75
                       then factors @ [Long_distance (DISTANCE buyer_data)] else factors);
                    age = PURCHASER_AGE_FROM_ID buyer_data;
                    factors =
                      (if age \<noteq> 0 \<and> (age < 30 \<or> age > 60)
                       then factors @ [Age_risk_factor age] else factors)
                in Inr factors)))"

subsection \<open>The assessment\<close>

text \<open>
  The dictionary \<^verbatim>\<open>assess_buyer_risk\<close> returns. Its key \<^verbatim>\<open>risk_level\<close> takes the name, so
  the method's local variable \<^verbatim>\<open>risk_level\<close> is \<open>level\<close> below; the method's first two
  assignments (\<^verbatim>\<open>risk_level = self.HIGH\<close>, \<^verbatim>\<open>actions = []\<close>) are overwritten by either
  branch and left out. The risk factors are computed while the dictionary is built,
  after the general checks.
\<close>

record Verdict =
  risk_level :: string
  suggested_actions :: "string list"
  risk_factors :: "risk_factor list"
  reasons :: "string list"

definition assess_buyer_risk :: "BuyerRiskAssessor \<Rightarrow> BuyerData \<Rightarrow> Verdict run" where
  "assess_buyer_risk self buyer_data =
     (let self = self\<lparr>REASONS := []\<rparr>;
          owns_home = check_ownership buyer_data
      in and_then
           (if \<not> owns_home then (assess_non_homeowner buyer_data, self)
            else assess_homeowner self buyer_data)
           (\<lambda>(level, actions) self.
              and_then (apply_general_checks self buyer_data level actions)
                (\<lambda>level self.
                   case get_risk_factors buyer_data of
                     Inl e \<Rightarrow> (Inl e, self)
                   | Inr factors \<Rightarrow>
                       (Inr \<lparr>risk_level = level, suggested_actions = actions,
                             risk_factors = factors, reasons = REASONS self\<rparr>,
                        self))))"

subsection \<open>Profiles\<close>

text \<open>The profile \<^verbatim>\<open>buyer_data\<close> of the source's \<^verbatim>\<open>__main__\<close> block.\<close>

definition main_buyer_data :: BuyerData where
  "main_buyer_data =
     \<lparr>PURCHASER_NAME_FROM_APS = ''John Smith'',
      PURCHASER_NAME_FROM_ID = ''John Smith'',
      PURCHASER_NAME_FROM_HOUSESIGMA = Some [],
      PURCHASER_ADDRESS_FROM_APS = ''123 Main St, Toronto, ON'',
      PURCHASER_ADDRESS_FROM_ID = ''123 Main St, Toronto, ON'',
      PURCHASER_ADDRESS_LIST_FROM_LANDREGISTRY = [''124 Main St, Toronto, ON''],
      PURCHASER_AGE_FROM_ID = 40,
      PURCHASER_ALL_PROPERTIES_PURCHASE_PRICE_FROM_LANDREGISTRY = [500000],
      PURCHASER_ALL_PROPERTIES_VALUE_FROM_AVM = [750000],
      PURCHASER_ALL_PROPERTIES_TOTAL_DEBT_FROM_PURVIEW = [300000],
      PURCHASER_ALL_PROPERTIES_EQUITY = [400000],
      PURCHASER_DEPOSIT_PAID_FROM_APS = 200000,
      PURCHASER_ID_ISSUE_DATE = ''2023-01-01'',
      PURCHASER_DRIVER_LICENSE_TYPE = ''Ontario'',
      CO_SIGNER_LIST_FROM_APS = [],
      DISTANCE = 50,
      PRIMARY_RESIDENCE_PURCHASE_PRICE_FROM_LANDREGISTRY = 500000,
      PRIMARY_RESIDENCE_VALUE_FROM_AVM = 750000,
      PRIMARY_RESIDENCE_TOTAL_DEBT_FROM_PURVIEW = 300000,
      PRIMARY_RESIDENCE_EQUITY = 450000,
      PRIMARY_RESIDENCE_TITLE_NAMES = [''Jane''],
      PROPERTY_PRICE = 800000,
      OTHER_DEPOSIT_PAID_NAME_LIST_FROM_APS = [''Jane''],
      MORTGAGE_APPROVAL = True,
      MORTGAGE_APPROVAL_NAMES = [''Jane'']\<rparr>"

text \<open>
  A profile on which every source agrees: the buyer owns and lives at the address of the
  agreement, paid the deposit alone and is the only party of the mortgage approval.
\<close>

definition consistent_buyer :: BuyerData where
  "consistent_buyer =
     main_buyer_data
       \<lparr>PURCHASER_NAME_FROM_HOUSESIGMA := Some ''John Smith'',
        PURCHASER_ADDRESS_LIST_FROM_LANDREGISTRY := [''123 Main St, Toronto, ON''],
        PRIMARY_RESIDENCE_TITLE_NAMES := [''John Smith''],
        OTHER_DEPOSIT_PAID_NAME_LIST_FROM_APS := [''John Smith''],
        MORTGAGE_APPROVAL_NAMES := [''John Smith'']\<rparr>"


text \<open>The same owner at the ages 25 and 0.\<close>

definition young_buyer :: BuyerData where
  "young_buyer = consistent_buyer\<lparr>PURCHASER_AGE_FROM_ID := 25\<rparr>"

definition zero_age_buyer :: BuyerData where
  "zero_age_buyer = consistent_buyer\<lparr>PURCHASER_AGE_FROM_ID := 0\<rparr>"



text \<open>The owner with a second title holder of the same last name, who is not on the agreement.\<close>

definition related_party_owner :: BuyerData where
  "related_party_owner =
     consistent_buyer\<lparr>PRIMARY_RESIDENCE_TITLE_NAMES := [''John Smith'', ''Jane Smith'']\<rparr>"

text \<open>The owner with a subject price of zero, and the owner with an empty agreement name.\<close>

definition zero_price_buyer :: BuyerData where
  "zero_price_buyer = consistent_buyer\<lparr>PROPERTY_PRICE := 0\<rparr>"

definition unnamed_buyer :: BuyerData where
  "unnamed_buyer = consistent_buyer\<lparr>PURCHASER_NAME_FROM_APS := []\<rparr>"

definition new_assessor :: BuyerRiskAssessor where
  "new_assessor = \<lparr>REASONS = []\<rparr>"

section \<open>Verification\<close>

subsection \<open>Facts about the ladder\<close>

lemmas tier_defs = NO_RISK_def VERY_LOW_def LOW_def MEDIUM_def HIGH_def VERY_HIGH_def

lemma risk_order_cases:
  "t \<in> set risk_order \<Longrightarrow> t = VERY_LOW \<or> t = LOW \<or> t = MEDIUM \<or> t = HIGH \<or> t = VERY_HIGH"
  by (auto simp: risk_order_def)

lemma index_of_ladder:
  "index_of risk_order VERY_LOW = Some 0"
  "index_of risk_order LOW = Some 1"
  "index_of risk_order MEDIUM = Some 2"
  "index_of risk_order HIGH = Some 3"
  "index_of risk_order VERY_HIGH = Some 4"
  "index_of risk_order NO_RISK = None"
  by (simp_all add: risk_order_def tier_defs)

lemma index_of_nth:
  assumes "i \<le> 4"
  shows "index_of risk_order (risk_order ! i) = Some i"
proof -
  from assms have "i = 0 \<or> i = 1 \<or> i = 2 \<or> i = 3 \<or> i = 4" by arith
  then show ?thesis
    by (elim disjE) (simp_all add: risk_order_def tier_defs)
qed

lemma index_of_bound: "index_of risk_order t = Some i \<Longrightarrow> i \<le> 4"
  by (auto simp: risk_order_def split: if_splits)

lemma increase_risk_at:
  assumes "index_of risk_order t = Some i" and "i \<le> 4" and "0 \<le> n"
  shows "increase_risk t n = Inr (risk_order ! min (i + nat n) 4)"
proof -
  have len: "length risk_order = 5" by (simp add: risk_order_def)
  have "min (int i + n) 4 = int (min (i + nat n) 4)" using assms by (auto simp: min_def)
  then show ?thesis using assms
    by (simp add: increase_risk_def py_getitem_def len)
qed

lemma increase_risk_off_ladder:
  "index_of risk_order t = None \<Longrightarrow> increase_risk t n = Inr t"
  by (simp add: increase_risk_def)

subsection \<open>The escalation ladder (C1)\<close>

text \<open>
  Claim C1. For every tier \<open>t\<close> of the ladder \<open>[VeryLow, Low, Medium, High, VeryHigh]\<close>, at
  index \<open>i\<close>, and every step count \<open>n\<close> (a number of steps, \<open>0 \<le> n\<close>), \<open>increase_risk t n\<close>
  returns the tier at index \<open>min (i + n) (last index)\<close>. That tier is not below \<open>t\<close>, a
  larger step count or a higher starting tier never gives a lower result, no result is
  above \<open>VeryHigh\<close>, and the result is \<open>VeryHigh\<close> as soon as \<open>i + n\<close> reaches the last
  index. \<open>NoRisk\<close> is not in the ladder, and \<open>increase_risk NO_RISK n\<close> is \<open>NoRisk\<close> for
  every integer \<open>n\<close>.
\<close>

theorem increase_risk_ladder:
  "(\<forall>t \<in> set risk_order. \<forall>n \<ge> 0. \<exists>i r.
        index_of risk_order t = Some i
      \<and> increase_risk t n = Inr r
      \<and> r = risk_order ! min (i + nat n) (length risk_order - 1)
      \<and> ladder_le t r
      \<and> (\<forall>m \<ge> n. \<exists>r'. increase_risk t m = Inr r' \<and> ladder_le r r')
      \<and> (\<forall>t' \<in> set risk_order. ladder_le t t' \<longrightarrow>
             (\<exists>r'. increase_risk t' n = Inr r' \<and> ladder_le r r'))
      \<and> ladder_le r VERY_HIGH
      \<and> (int (length risk_order) - 1 \<le> int i + n \<longrightarrow> r = VERY_HIGH))
   \<and> NO_RISK \<notin> set risk_order
   \<and> (\<forall>n. increase_risk NO_RISK n = Inr NO_RISK)"
proof (intro conjI ballI allI impI)
  fix t :: string and n :: int
  assume t: "t \<in> set risk_order" and n: "0 \<le> n"
  have len: "length risk_order - 1 = 4" by (simp add: risk_order_def)
  from t obtain i where i: "index_of risk_order t = Some i" "i \<le> 4"
    using risk_order_cases [OF t] index_of_ladder by auto
  let ?j = "min (i + nat n) 4"
  let ?r = "risk_order ! ?j"
  have r: "increase_risk t n = Inr ?r" by (rule increase_risk_at [OF i n])
  have jr: "index_of risk_order ?r = Some ?j" by (rule index_of_nth) simp
  have le: "ladder_le t ?r" using i jr by (simp add: ladder_le_def)
  have mono_n: "\<exists>r'. increase_risk t m = Inr r' \<and> ladder_le ?r r'" if "n \<le> m" for m
  proof -
    have m: "0 \<le> m" using n that by simp
    have "index_of risk_order (risk_order ! min (i + nat m) 4) = Some (min (i + nat m) 4)"
      by (rule index_of_nth) simp
    moreover have "?j \<le> min (i + nat m) 4" using that n by (auto simp: min_def)
    ultimately have "ladder_le ?r (risk_order ! min (i + nat m) 4)"
      using jr by (simp add: ladder_le_def)
    then show ?thesis using increase_risk_at [OF i m] by blast
  qed
  have mono_t: "\<exists>r'. increase_risk t' n = Inr r' \<and> ladder_le ?r r'"
    if t': "t' \<in> set risk_order" and tt': "ladder_le t t'" for t'
  proof -
    from t' obtain k where k: "index_of risk_order t' = Some k" "k \<le> 4"
      using risk_order_cases [OF t'] index_of_ladder by auto
    have ik: "i \<le> k" using tt' i k by (simp add: ladder_le_def)
    have "index_of risk_order (risk_order ! min (k + nat n) 4) = Some (min (k + nat n) 4)"
      by (rule index_of_nth) simp
    moreover have "?j \<le> min (k + nat n) 4" using ik by (simp add: min_def)
    ultimately have "ladder_le ?r (risk_order ! min (k + nat n) 4)"
      using jr by (simp add: ladder_le_def)
    then show ?thesis using increase_risk_at [OF k n] by blast
  qed
  have top: "ladder_le ?r VERY_HIGH" using jr index_of_ladder(5) by (simp add: ladder_le_def)
  have sat: "?r = VERY_HIGH" if "int (length risk_order) - 1 \<le> int i + n"
  proof -
    have "?j = 4" using that n by (auto simp: risk_order_def min_def)
    then show ?thesis by (simp add: risk_order_def)
  qed
  show "\<exists>i r. index_of risk_order t = Some i \<and> increase_risk t n = Inr r
      \<and> r = risk_order ! min (i + nat n) (length risk_order - 1)
      \<and> ladder_le t r
      \<and> (\<forall>m \<ge> n. \<exists>r'. increase_risk t m = Inr r' \<and> ladder_le r r')
      \<and> (\<forall>t' \<in> set risk_order. ladder_le t t' \<longrightarrow>
             (\<exists>r'. increase_risk t' n = Inr r' \<and> ladder_le r r'))
      \<and> ladder_le r VERY_HIGH
      \<and> (int (length risk_order) - 1 \<le> int i + n \<longrightarrow> r = VERY_HIGH)"
    unfolding len using i(1) r le mono_n mono_t top sat by blast
next
  show "NO_RISK \<notin> set risk_order" by (simp add: risk_order_def tier_defs)
next
  fix n show "increase_risk NO_RISK n = Inr NO_RISK"
    by (simp add: increase_risk_def index_of_ladder)
qed

theorem increase_risk_ladder_witness:
  "LOW \<in> set risk_order \<and> (0::int) \<le> 2 \<and> increase_risk LOW 2 = Inr HIGH
   \<and> increase_risk HIGH 2 = Inr VERY_HIGH"
proof -
  have low: "LOW \<in> set risk_order" and high: "HIGH \<in> set risk_order"
    by (simp_all add: risk_order_def)
  have two: "(0::int) \<le> 2" by simp
  from increase_risk_ladder low two obtain i r
    where h: "index_of risk_order LOW = Some i" "increase_risk LOW 2 = Inr r"
      "r = risk_order ! min (i + nat 2) (length risk_order - 1)"
    by blast
  from h(1) have "i = 1" by (simp add: index_of_ladder)
  with h(3) have "r = HIGH" by (simp add: risk_order_def)
  with h(2) have a: "increase_risk LOW 2 = Inr HIGH" by simp
  from increase_risk_ladder high two obtain j s
    where g: "index_of risk_order HIGH = Some j" "increase_risk HIGH 2 = Inr s"
      "s = risk_order ! min (j + nat 2) (length risk_order - 1)"
    by blast
  from g(1) have "j = 3" by (simp add: index_of_ladder)
  with g(3) have "s = VERY_HIGH" by (simp add: risk_order_def)
  with g(2) have b: "increase_risk HIGH 2 = Inr VERY_HIGH" by simp
  show ?thesis using low two a b by simp
qed

text \<open>
  A negative \<^verbatim>\<open>levels\<close> is not a step count, and no call of the engine passes one. The
  method then follows Python's indexing: the index counts from the end of the ladder, or
  is out of range.
\<close>

lemma increase_risk_negative_levels:
  "increase_risk HIGH (- 1) = Inr MEDIUM"
  "increase_risk VERY_LOW (- 1) = Inr VERY_HIGH"
  "increase_risk VERY_LOW (- 6) = Inl IndexError"
  by code_simp+

subsection \<open>Facts about sequencing and the checks\<close>

lemma and_then_Inr [simp]: "and_then (Inr x, s) f = f x s"
  by (simp add: and_then_def)

lemma and_then_Inl [simp]: "and_then (Inl e, s) f = (Inl e, s)"
  by (simp add: and_then_def)

lemma on_ok_Inr [simp]: "on_ok (Inr x) f = f x"
  by (simp add: on_ok_def)

lemma on_ok_Inl [simp]: "on_ok (Inl e) f = Inl e"
  by (simp add: on_ok_def)

lemma REASONS_append_reason [simp]: "REASONS (append_reason s x) = REASONS s @ [x]"
  by (simp add: append_reason_def)

text \<open>A step count that is not negative never raises.\<close>

lemma increase_risk_total:
  assumes "0 \<le> n"
  obtains r where "increase_risk t n = Inr r"
proof (cases "index_of risk_order t")
  case None
  then show ?thesis using that by (simp add: increase_risk_off_ladder)
next
  case (Some i)
  then show ?thesis using that increase_risk_at [OF Some index_of_bound [OF Some] assms] by simp
qed

lemma increase_risk_VERY_HIGH:
  assumes "0 \<le> n"
  shows "increase_risk VERY_HIGH n = Inr VERY_HIGH"
proof -
  have "increase_risk VERY_HIGH n = Inr (risk_order ! min (4 + nat n) 4)"
    by (rule increase_risk_at [OF index_of_ladder(5) _ assms]) simp
  then show ?thesis by (simp add: risk_order_def)
qed

lemma escalate_with_reason_total:
  assumes "0 \<le> n"
  obtains r where "escalate_with_reason t n x s = (Inr r, append_reason s x)"
    and "increase_risk t n = Inr r"
  using increase_risk_total [OF assms, of t] by (auto simp: escalate_with_reason_def)

lemma escalate_with_reason_VERY_HIGH:
  "0 \<le> n \<Longrightarrow> escalate_with_reason VERY_HIGH n x s = (Inr VERY_HIGH, append_reason s x)"
  by (simp add: escalate_with_reason_def increase_risk_VERY_HIGH)

text \<open>
  What each of the ten checks does to a run: it returns a tier, it keeps \<open>VeryHigh\<close>, and
  it only appends to the reasons.
\<close>

lemmas check_defs =
  name_id_aps_check_def name_aps_housesigma_check_def name_id_housesigma_check_def
  address_consistency_check_def land_registry_check_def distance_check_def
  deposit_paid_by_others_check_def mortgage_approval_parties_check_def
  age_check_def multiple_properties_check_def

lemma general_checks_unfold:
  "apply_general_checks self p r actions =
     foldl and_then (Inr r, self) (map (\<lambda>c. c p) general_checks)"
  by (simp add: apply_general_checks_def checks_before_age_def general_checks_def)

lemma check_returns:
  assumes "c \<in> set general_checks"
  shows "\<not> isl (fst (c p r s))"
proof -
  have one: "(0::int) \<le> 1" by simp
  obtain r' where "increase_risk r 1 = Inr r'" by (rule increase_risk_total [OF one])
  then have e: "escalate_with_reason r 1 x s = (Inr r', append_reason s x)" for x
    by (simp add: escalate_with_reason_def)
  from assms show ?thesis
    by (auto simp: general_checks_def check_defs e Let_def split: if_splits)
qed

lemma check_keeps:
  assumes "c \<in> set general_checks"
  shows "fst (c p VERY_HIGH s) = Inr VERY_HIGH"
  using assms
  by (auto simp: general_checks_def check_defs escalate_with_reason_VERY_HIGH Let_def
      split: if_splits)

lemma check_reasons:
  assumes "c \<in> set general_checks"
  shows "\<exists>ys. REASONS (snd (c p r s)) = REASONS s @ ys"
proof -
  have one: "(0::int) \<le> 1" by simp
  obtain r' where "increase_risk r 1 = Inr r'" by (rule increase_risk_total [OF one])
  then have e: "escalate_with_reason r 1 x s = (Inr r', append_reason s x)" for x
    by (simp add: escalate_with_reason_def)
  from assms show ?thesis
    by (auto simp: general_checks_def check_defs e Let_def split: if_splits)
qed

text \<open>The same facts for a sequence of checks.\<close>

lemma foldl_returns:
  assumes "\<not> isl (fst m)" and "\<forall>c \<in> set cs. \<forall>r s. \<not> isl (fst (c r s))"
  shows "\<not> isl (fst (foldl and_then m cs))"
  using assms
proof (induction cs arbitrary: m)
  case Nil
  then show ?case by simp
next
  case (Cons c cs)
  obtain v s where m: "m = (Inr v, s)" using Cons.prems(1) by (cases m; cases "fst m") auto
  have "\<not> isl (fst (and_then m c))" using Cons.prems(2) by (simp add: m)
  then show ?case using Cons.IH Cons.prems(2) by simp
qed

lemma foldl_keeps:
  assumes "fst m = Inr VERY_HIGH" and "\<forall>c \<in> set cs. \<forall>s. fst (c VERY_HIGH s) = Inr VERY_HIGH"
  shows "fst (foldl and_then m cs) = Inr VERY_HIGH"
  using assms
proof (induction cs arbitrary: m)
  case Nil
  then show ?case by simp
next
  case (Cons c cs)
  obtain s where m: "m = (Inr VERY_HIGH, s)" using Cons.prems(1) by (cases m) auto
  have "fst (and_then m c) = Inr VERY_HIGH" using Cons.prems(2) by (simp add: m)
  then show ?case using Cons.IH Cons.prems(2) by simp
qed

lemma foldl_reasons:
  assumes "\<forall>c \<in> set cs. \<forall>r s. \<exists>ys. REASONS (snd (c r s)) = REASONS s @ ys"
  shows "\<exists>ys. REASONS (snd (foldl and_then m cs)) = REASONS (snd m) @ ys"
  using assms
proof (induction cs arbitrary: m)
  case Nil
  then show ?case by simp
next
  case (Cons c cs)
  have "\<exists>ys. REASONS (snd (and_then m c)) = REASONS (snd m) @ ys"
  proof (cases m)
    case (Pair a s)
    then show ?thesis using Cons.prems by (cases a) auto
  qed
  then obtain ys where ys: "REASONS (snd (and_then m c)) = REASONS (snd m) @ ys" ..
  from Cons.IH [of "and_then m c"] Cons.prems
  obtain zs where "REASONS (snd (foldl and_then (and_then m c) cs))
      = REASONS (snd (and_then m c)) @ zs" by auto
  then show ?case using ys by simp
qed

text \<open>A check that forces \<open>VeryHigh\<close> decides the tier of the whole sequence.\<close>

lemma chain_forces:
  assumes ret: "\<forall>c \<in> set pre. \<forall>r s. \<not> isl (fst (c r s))"
    and force: "\<forall>r s. fst (c r s) = Inr VERY_HIGH"
    and keep: "\<forall>c \<in> set post. \<forall>s. fst (c VERY_HIGH s) = Inr VERY_HIGH"
  shows "fst (foldl and_then (Inr r0, s0) (pre @ c # post)) = Inr VERY_HIGH"
proof -
  let ?m = "foldl and_then (Inr r0, s0) pre"
  have "\<not> isl (fst ?m)" by (rule foldl_returns [OF _ ret]) simp
  then obtain v s where m: "?m = (Inr v, s)" by (cases ?m; cases "fst ?m") auto
  have "fst (and_then ?m c) = Inr VERY_HIGH" using force by (simp add: m)
  then have "fst (foldl and_then (and_then ?m c) post) = Inr VERY_HIGH"
    by (rule foldl_keeps [OF _ keep])
  then show ?thesis by simp
qed

text \<open>What a verdict says about the steps that produced it.\<close>

lemma assess_buyer_risk_returns:
  assumes "assess_buyer_risk self p = (Inr v, s')"
  obtains level s1 where
    "(if \<not> check_ownership p then (assess_non_homeowner p, self\<lparr>REASONS := []\<rparr>)
      else assess_homeowner (self\<lparr>REASONS := []\<rparr>) p) = (Inr (level, suggested_actions v), s1)"
    and "apply_general_checks s1 p level (suggested_actions v) = (Inr (risk_level v), s')"
    and "get_risk_factors p = Inr (risk_factors v)"
    and "reasons v = REASONS s'"
proof -
  let ?b = "if \<not> check_ownership p then (assess_non_homeowner p, self\<lparr>REASONS := []\<rparr>)
      else assess_homeowner (self\<lparr>REASONS := []\<rparr>) p"
  obtain a s1 where b: "?b = (a, s1)" by (cases ?b)
  from assms b obtain level actions where a: "a = Inr (level, actions)"
    by (cases a) (auto simp: assess_buyer_risk_def Let_def)
  obtain g s2 where g: "apply_general_checks s1 p level actions = (g, s2)"
    by (cases "apply_general_checks s1 p level actions")
  from assms b a g obtain level' where g': "g = Inr level'"
    by (cases g) (auto simp: assess_buyer_risk_def Let_def)
  from assms b a g g' obtain factors where f: "get_risk_factors p = Inr factors"
    by (cases "get_risk_factors p") (auto simp: assess_buyer_risk_def Let_def)
  from assms b a g g' f
  have "v = \<lparr>risk_level = level', suggested_actions = actions,
             risk_factors = factors, reasons = REASONS s2\<rparr>" and "s' = s2"
    by (auto simp: assess_buyer_risk_def Let_def)
  then show ?thesis using that b a g g' f by simp
qed

text \<open>Each of the five mismatches decides the tier the general checks return.\<close>

lemma mismatch_general_checks:
  assumes "PURCHASER_NAME_FROM_APS p \<noteq> PURCHASER_NAME_FROM_ID p
         \<or> Some (PURCHASER_NAME_FROM_APS p) \<noteq> PURCHASER_NAME_FROM_HOUSESIGMA p
         \<or> Some (PURCHASER_NAME_FROM_ID p) \<noteq> PURCHASER_NAME_FROM_HOUSESIGMA p
         \<or> PURCHASER_ADDRESS_FROM_ID p \<noteq> PURCHASER_ADDRESS_FROM_APS p
         \<or> PURCHASER_ADDRESS_FROM_APS p \<notin> set (PURCHASER_ADDRESS_LIST_FROM_LANDREGISTRY p)"
  shows "fst (apply_general_checks s0 p r0 a0) = Inr VERY_HIGH"
proof -
  have ret: "\<forall>c \<in> set (map (\<lambda>c. c p) cs). \<forall>r s. \<not> isl (fst (c r s))"
    if "set cs \<subseteq> set general_checks" for cs
    using that check_returns by auto
  have keep: "\<forall>c \<in> set (map (\<lambda>c. c p) cs). \<forall>s. fst (c VERY_HIGH s) = Inr VERY_HIGH"
    if "set cs \<subseteq> set general_checks" for cs
    using that check_keeps by auto
  have forced: "fst (foldl and_then (Inr r0, s0) (map (\<lambda>c. c p) general_checks)) = Inr VERY_HIGH"
    if split: "general_checks = pre @ c # post" and force: "\<forall>r s. fst (c p r s) = Inr VERY_HIGH"
    for pre c post r0 s0
  proof -
    have sub: "set pre \<subseteq> set general_checks" "set post \<subseteq> set general_checks"
      by (auto simp: split)
    show ?thesis
      unfolding split map_append list.map
      by (rule chain_forces [OF ret [OF sub(1)] force keep [OF sub(2)]])
  qed
  show ?thesis
  proof -
    consider (a) "PURCHASER_NAME_FROM_APS p \<noteq> PURCHASER_NAME_FROM_ID p"
      | (b) "Some (PURCHASER_NAME_FROM_APS p) \<noteq> PURCHASER_NAME_FROM_HOUSESIGMA p"
      | (c) "Some (PURCHASER_NAME_FROM_ID p) \<noteq> PURCHASER_NAME_FROM_HOUSESIGMA p"
      | (d) "PURCHASER_ADDRESS_FROM_ID p \<noteq> PURCHASER_ADDRESS_FROM_APS p"
      | (e) "PURCHASER_ADDRESS_FROM_APS p \<notin> set (PURCHASER_ADDRESS_LIST_FROM_LANDREGISTRY p)"
      using assms by blast
    then show ?thesis
    proof cases
      case a
      have "general_checks = [] @ name_id_aps_check # tl general_checks"
        by (simp add: general_checks_def)
      moreover have "\<forall>r s. fst (name_id_aps_check p r s) = Inr VERY_HIGH"
        using a by (simp add: name_id_aps_check_def)
      ultimately show ?thesis unfolding general_checks_unfold by (rule forced)
    next
      case b
      have "general_checks = take 1 general_checks @ name_aps_housesigma_check
          # drop 2 general_checks"
        by (simp add: general_checks_def)
      moreover have "\<forall>r s. fst (name_aps_housesigma_check p r s) = Inr VERY_HIGH"
        using b by (simp add: name_aps_housesigma_check_def)
      ultimately show ?thesis unfolding general_checks_unfold by (rule forced)
    next
      case c
      have "general_checks = take 2 general_checks @ name_id_housesigma_check
          # drop 3 general_checks"
        by (simp add: general_checks_def)
      moreover have "\<forall>r s. fst (name_id_housesigma_check p r s) = Inr VERY_HIGH"
        using c by (simp add: name_id_housesigma_check_def)
      ultimately show ?thesis unfolding general_checks_unfold by (rule forced)
    next
      case d
      have "general_checks = take 3 general_checks @ address_consistency_check
          # drop 4 general_checks"
        by (simp add: general_checks_def)
      moreover have "\<forall>r s. fst (address_consistency_check p r s) = Inr VERY_HIGH"
        using d by (simp add: address_consistency_check_def)
      ultimately show ?thesis unfolding general_checks_unfold by (rule forced)
    next
      case e
      have "general_checks = take 4 general_checks @ land_registry_check
          # drop 5 general_checks"
        by (simp add: general_checks_def)
      moreover have "\<forall>r s. fst (land_registry_check p r s) = Inr VERY_HIGH"
        using e by (simp add: land_registry_check_def)
      ultimately show ?thesis unfolding general_checks_unfold by (rule forced)
    qed
  qed
qed

subsection \<open>A mismatch forces the highest tier (C2)\<close>

text \<open>
  Claim C2. For every profile and every branch tier given to the general checks: when the
  agreement name differs from the ID name, or the agreement name from the listing-service
  name, or the ID name from the listing-service name, or the ID address from the agreement
  address, or the agreement address is not in the land-registry address list, the general
  checks return \<open>VeryHigh\<close>, whatever the branch tier and whichever later checks fire; so
  every verdict \<open>assess_buyer_risk\<close> returns for such a profile has tier \<open>VeryHigh\<close>.
\<close>

theorem mismatch_forces_VERY_HIGH:
  assumes "PURCHASER_NAME_FROM_APS p \<noteq> PURCHASER_NAME_FROM_ID p
         \<or> Some (PURCHASER_NAME_FROM_APS p) \<noteq> PURCHASER_NAME_FROM_HOUSESIGMA p
         \<or> Some (PURCHASER_NAME_FROM_ID p) \<noteq> PURCHASER_NAME_FROM_HOUSESIGMA p
         \<or> PURCHASER_ADDRESS_FROM_ID p \<noteq> PURCHASER_ADDRESS_FROM_APS p
         \<or> PURCHASER_ADDRESS_FROM_APS p \<notin> set (PURCHASER_ADDRESS_LIST_FROM_LANDREGISTRY p)"
  shows "fst (apply_general_checks self p branch_tier actions) = Inr VERY_HIGH
       \<and> (\<forall>engine v s'. assess_buyer_risk engine p = (Inr v, s') \<longrightarrow> risk_level v = VERY_HIGH)"
proof -
  note general = mismatch_general_checks [OF assms]
  have "risk_level v = VERY_HIGH" if "assess_buyer_risk engine p = (Inr v, s')" for engine v s'
  proof -
    from that obtain level s1
      where "apply_general_checks s1 p level (suggested_actions v) = (Inr (risk_level v), s')"
      by (rule assess_buyer_risk_returns)
    with general [of s1 level "suggested_actions v"] show ?thesis by simp
  qed
  with general show ?thesis by blast
qed

theorem mismatch_forces_VERY_HIGH_witness:
  "Some (PURCHASER_NAME_FROM_APS main_buyer_data) \<noteq> PURCHASER_NAME_FROM_HOUSESIGMA main_buyer_data
   \<and> fst (apply_general_checks new_assessor main_buyer_data LOW []) = Inr VERY_HIGH
   \<and> (\<exists>v s'. assess_buyer_risk new_assessor main_buyer_data = (Inr v, s')
         \<and> risk_level v = VERY_HIGH)"
proof -
  have h: "Some (PURCHASER_NAME_FROM_APS main_buyer_data)
      \<noteq> PURCHASER_NAME_FROM_HOUSESIGMA main_buyer_data"
    by (simp add: main_buyer_data_def)
  note forced = mismatch_forces_VERY_HIGH [of main_buyer_data, OF disjI2 [OF disjI1 [OF h]]]
  have "\<not> isl (fst (assess_buyer_risk new_assessor main_buyer_data))" by code_simp
  then obtain v s' where v: "assess_buyer_risk new_assessor main_buyer_data = (Inr v, s')"
    by (cases "assess_buyer_risk new_assessor main_buyer_data";
        cases "fst (assess_buyer_risk new_assessor main_buyer_data)") auto
  with forced [of new_assessor LOW "[]"] have "risk_level v = VERY_HIGH" by blast
  with h forced [of new_assessor LOW "[]"] v show ?thesis by blast
qed

subsection \<open>The listing-service name left at its default (C6)\<close>

text \<open>
  Claim C6. For every profile whose listing-service name is omitted, so that it has its
  default, the empty string, while the agreement name and the ID name are equal and not
  empty: the general checks return \<open>VeryHigh\<close> and append
  "Name mismatch between APS and HOUSESIGMA" and then
  "Name mismatch between ID and HOUSESIGMA" to the reasons, whatever the branch tier, and
  every verdict returned for such a profile has tier \<open>VeryHigh\<close> and both reasons.
\<close>

theorem omitted_housesigma_forces_VERY_HIGH:
  assumes dflt: "PURCHASER_NAME_FROM_HOUSESIGMA p = HOUSESIGMA_default"
    and same: "PURCHASER_NAME_FROM_APS p = PURCHASER_NAME_FROM_ID p"
    and nonempty: "PURCHASER_NAME_FROM_APS p \<noteq> []"
  shows "fst (apply_general_checks self p branch_tier actions) = Inr VERY_HIGH
       \<and> (\<exists>rest. REASONS (snd (apply_general_checks self p branch_tier actions)) =
             REASONS self @ [''Name mismatch between APS and HOUSESIGMA'',
                             ''Name mismatch between ID and HOUSESIGMA''] @ rest)
       \<and> (\<forall>engine v s'. assess_buyer_risk engine p = (Inr v, s') \<longrightarrow>
             risk_level v = VERY_HIGH
           \<and> ''Name mismatch between APS and HOUSESIGMA'' \<in> set (reasons v)
           \<and> ''Name mismatch between ID and HOUSESIGMA'' \<in> set (reasons v))"
proof -
  have mismatch: "Some (PURCHASER_NAME_FROM_APS p) \<noteq> PURCHASER_NAME_FROM_HOUSESIGMA p"
    using dflt nonempty by (simp add: HOUSESIGMA_default_def)
  have tier: "fst (apply_general_checks s0 p r0 a0) = Inr VERY_HIGH" for s0 r0 a0
    using mismatch by (intro mismatch_general_checks) simp
  have reasons: "\<exists>rest. REASONS (snd (apply_general_checks s0 p r0 a0)) =
      REASONS s0 @ [''Name mismatch between APS and HOUSESIGMA'',
                    ''Name mismatch between ID and HOUSESIGMA''] @ rest" for s0 r0 a0
  proof -
    let ?s3 = "append_reason (append_reason s0 ''Name mismatch between APS and HOUSESIGMA'')
        ''Name mismatch between ID and HOUSESIGMA''"
    let ?later = "map (\<lambda>c. c p) (drop 3 general_checks)"
    have split: "map (\<lambda>c. c p) general_checks =
        [name_id_aps_check p, name_aps_housesigma_check p, name_id_housesigma_check p] @ ?later"
      by (simp add: general_checks_def)
    have first: "foldl and_then (Inr r0, s0)
        [name_id_aps_check p, name_aps_housesigma_check p, name_id_housesigma_check p]
        = (Inr VERY_HIGH, ?s3)"
      using mismatch same
      by (simp add: name_id_aps_check_def name_aps_housesigma_check_def
          name_id_housesigma_check_def)
    have "\<forall>c \<in> set ?later. \<forall>r s. \<exists>ys. REASONS (snd (c r s)) = REASONS s @ ys"
      using check_reasons set_drop_subset [of 3 general_checks] by auto
    from foldl_reasons [OF this, of "(Inr VERY_HIGH, ?s3)"]
    obtain ys where "REASONS (snd (foldl and_then (Inr VERY_HIGH, ?s3) ?later))
        = REASONS ?s3 @ ys" by auto
    then show ?thesis
      unfolding general_checks_unfold split foldl_append first by simp
  qed
  have verdict: "risk_level v = VERY_HIGH
      \<and> ''Name mismatch between APS and HOUSESIGMA'' \<in> set (reasons v)
      \<and> ''Name mismatch between ID and HOUSESIGMA'' \<in> set (reasons v)"
    if "assess_buyer_risk engine p = (Inr v, s')" for engine v s'
  proof -
    from that obtain level s1
      where g: "apply_general_checks s1 p level (suggested_actions v) = (Inr (risk_level v), s')"
        and r: "reasons v = REASONS s'"
      by (rule assess_buyer_risk_returns)
    from tier [of s1 level "suggested_actions v"] g have "risk_level v = VERY_HIGH" by simp
    moreover from reasons [of s1 level "suggested_actions v"] g r
    have "''Name mismatch between APS and HOUSESIGMA'' \<in> set (reasons v)"
      and "''Name mismatch between ID and HOUSESIGMA'' \<in> set (reasons v)"
      by auto
    ultimately show ?thesis by simp
  qed
  from tier reasons verdict show ?thesis by blast
qed

theorem omitted_housesigma_forces_VERY_HIGH_witness:
  "PURCHASER_NAME_FROM_HOUSESIGMA main_buyer_data = HOUSESIGMA_default
   \<and> PURCHASER_NAME_FROM_APS main_buyer_data = PURCHASER_NAME_FROM_ID main_buyer_data
   \<and> PURCHASER_NAME_FROM_APS main_buyer_data \<noteq> []
   \<and> (\<exists>v s'. assess_buyer_risk new_assessor main_buyer_data = (Inr v, s')
        \<and> risk_level v = VERY_HIGH
        \<and> ''Name mismatch between APS and HOUSESIGMA'' \<in> set (reasons v)
        \<and> ''Name mismatch between ID and HOUSESIGMA'' \<in> set (reasons v))"
proof -
  have h: "PURCHASER_NAME_FROM_HOUSESIGMA main_buyer_data = HOUSESIGMA_default"
    "PURCHASER_NAME_FROM_APS main_buyer_data = PURCHASER_NAME_FROM_ID main_buyer_data"
    "PURCHASER_NAME_FROM_APS main_buyer_data \<noteq> []"
    by (simp_all add: main_buyer_data_def HOUSESIGMA_default_def)
  have "\<not> isl (fst (assess_buyer_risk new_assessor main_buyer_data))" by code_simp
  then obtain v s' where v: "assess_buyer_risk new_assessor main_buyer_data = (Inr v, s')"
    by (cases "assess_buyer_risk new_assessor main_buyer_data";
        cases "fst (assess_buyer_risk new_assessor main_buyer_data)") auto
  from omitted_housesigma_forces_VERY_HIGH [OF h, of new_assessor LOW "[]"] v
  have "risk_level v = VERY_HIGH
      \<and> ''Name mismatch between APS and HOUSESIGMA'' \<in> set (reasons v)
      \<and> ''Name mismatch between ID and HOUSESIGMA'' \<in> set (reasons v)"
    by blast
  with h v show ?thesis by blast
qed

subsection \<open>The age check (C9)\<close>

text \<open>No check but the age check appends the age reason.\<close>

lemma other_check_age_reason:
  assumes "c \<in> {name_id_aps_check, name_aps_housesigma_check, name_id_housesigma_check,
      address_consistency_check, land_registry_check, distance_check,
      deposit_paid_by_others_check, mortgage_approval_parties_check,
      multiple_properties_check}"
  shows "age_reason a \<in> set (REASONS (snd (c p r s))) \<longleftrightarrow> age_reason a \<in> set (REASONS s)"
proof -
  have one: "(0::int) \<le> 1" by simp
  obtain r' where "increase_risk r 1 = Inr r'" by (rule increase_risk_total [OF one])
  then have e: "escalate_with_reason r 1 x s = (Inr r', append_reason s x)" for x
    by (simp add: escalate_with_reason_def)
  from assms show ?thesis
    by (auto simp: check_defs e Let_def age_reason_def split: if_splits)
qed

lemma foldl_same_reason:
  assumes "\<forall>c \<in> set cs. \<forall>r s. x \<in> set (REASONS (snd (c r s))) \<longleftrightarrow> x \<in> set (REASONS s)"
  shows "x \<in> set (REASONS (snd (foldl and_then m cs))) \<longleftrightarrow> x \<in> set (REASONS (snd m))"
  using assms
proof (induction cs arbitrary: m)
  case Nil
  then show ?case by simp
next
  case (Cons c cs)
  have "x \<in> set (REASONS (snd (and_then m c))) \<longleftrightarrow> x \<in> set (REASONS (snd m))"
  proof (cases m)
    case (Pair a s)
    then show ?thesis using Cons.prems by (cases a) auto
  qed
  then show ?case using Cons.IH [of "and_then m c"] Cons.prems by simp
qed

lemma checks_before_age_returns:
  obtains r8 s8 where "checks_before_age self p r = (Inr r8, s8)"
    and "age_reason a \<in> set (REASONS s8) \<longleftrightarrow> age_reason a \<in> set (REASONS self)"
proof -
  let ?cs = "take 8 general_checks"
  let ?m = "foldl and_then (Inr r, self) (map (\<lambda>c. c p) ?cs)"
  have unfold: "checks_before_age self p r = ?m"
    by (simp add: checks_before_age_def general_checks_def)
  have "\<forall>c \<in> set (map (\<lambda>c. c p) ?cs). \<forall>r s. \<not> isl (fst (c r s))"
    using check_returns set_take_subset [of 8 general_checks] by auto
  then have "\<not> isl (fst ?m)" by (intro foldl_returns) simp_all
  then obtain r8 s8 where m: "?m = (Inr r8, s8)" by (cases ?m; cases "fst ?m") auto
  have "\<forall>c \<in> set (map (\<lambda>c. c p) ?cs). \<forall>r s.
      age_reason a \<in> set (REASONS (snd (c r s))) \<longleftrightarrow> age_reason a \<in> set (REASONS s)"
    using other_check_age_reason by (auto simp: general_checks_def)
  from foldl_same_reason [OF this, of "(Inr r, self)"] m
  have "age_reason a \<in> set (REASONS s8) \<longleftrightarrow> age_reason a \<in> set (REASONS self)" by simp
  with unfold m that show ?thesis by simp
qed

text \<open>
  Claim C9, as amended. In the general checks, for every profile whose age is not zero and
  is below 30 or above 60, the age check escalates the tier by one step and appends the
  reason "Age risk (\<open>age\<close> years)"; when the age is in \<open>[30, 60]\<close>, or is zero, the age
  check changes neither the tier nor the reasons. The age check runs on what the eight
  checks before it return, and only the multiple-properties check follows it; the age
  reason is among the reasons after the pass exactly when the age check fired or the
  reason was there before.
\<close>

theorem age_check_escalates:
  "(PURCHASER_AGE_FROM_ID p \<noteq> 0
      \<and> (PURCHASER_AGE_FROM_ID p < 30 \<or> PURCHASER_AGE_FROM_ID p > 60) \<longrightarrow>
      (\<exists>r'. increase_risk r 1 = Inr r'
         \<and> age_check p r self
             = (Inr r', append_reason self (age_reason (PURCHASER_AGE_FROM_ID p)))))
   \<and> ((30 \<le> PURCHASER_AGE_FROM_ID p \<and> PURCHASER_AGE_FROM_ID p \<le> 60)
        \<or> PURCHASER_AGE_FROM_ID p = 0 \<longrightarrow>
      age_check p r self = (Inr r, self))
   \<and> (\<exists>r8 s8. checks_before_age self p r = (Inr r8, s8)
        \<and> apply_general_checks self p r actions
            = and_then (age_check p r8 s8) (multiple_properties_check p))
   \<and> (age_reason (PURCHASER_AGE_FROM_ID p)
          \<in> set (REASONS (snd (apply_general_checks self p r actions))) \<longleftrightarrow>
        (PURCHASER_AGE_FROM_ID p \<noteq> 0
          \<and> (PURCHASER_AGE_FROM_ID p < 30 \<or> PURCHASER_AGE_FROM_ID p > 60))
        \<or> age_reason (PURCHASER_AGE_FROM_ID p) \<in> set (REASONS self))"
proof -
  let ?age = "PURCHASER_AGE_FROM_ID p"
  let ?fires = "?age \<noteq> 0 \<and> (?age < 30 \<or> ?age > 60)"
  have one: "(0::int) \<le> 1" by simp
  have fire: "\<exists>r'. increase_risk t 1 = Inr r'
      \<and> age_check p t s = (Inr r', append_reason s (age_reason ?age))" if ?fires for t s
  proof -
    obtain r' where "increase_risk t 1 = Inr r'" by (rule increase_risk_total [OF one])
    then show ?thesis using that by (simp add: age_check_def escalate_with_reason_def)
  qed
  have quiet: "age_check p t s = (Inr t, s)" if "\<not> ?fires" for t s
    using that by (auto simp: age_check_def)
  obtain r8 s8 where before: "checks_before_age self p r = (Inr r8, s8)"
    and r8: "age_reason ?age \<in> set (REASONS s8) \<longleftrightarrow> age_reason ?age \<in> set (REASONS self)"
    by (rule checks_before_age_returns)
  have pass: "apply_general_checks self p r actions
      = and_then (age_check p r8 s8) (multiple_properties_check p)"
    by (simp add: apply_general_checks_def before)
  have last: "age_reason ?age \<in> set (REASONS (snd (and_then m (multiple_properties_check p))))
      \<longleftrightarrow> age_reason ?age \<in> set (REASONS (snd m))" for m
    using foldl_same_reason [of "[multiple_properties_check p]" "age_reason ?age" m]
      other_check_age_reason [of multiple_properties_check ?age p]
    by simp
  have "age_reason ?age \<in> set (REASONS (snd (age_check p r8 s8)))
      \<longleftrightarrow> ?fires \<or> age_reason ?age \<in> set (REASONS s8)"
  proof (cases ?fires)
    case True
    then show ?thesis using fire [OF True, of r8 s8] by auto
  next
    case False
    then show ?thesis using quiet [OF False, of r8 s8] by auto
  qed
  then have member: "age_reason ?age \<in> set (REASONS (snd (apply_general_checks self p r actions)))
      \<longleftrightarrow> ?fires \<or> age_reason ?age \<in> set (REASONS self)"
    unfolding pass last r8 .
  have a: "?fires \<longrightarrow> (\<exists>r'. increase_risk r 1 = Inr r'
      \<and> age_check p r self = (Inr r', append_reason self (age_reason ?age)))"
    using fire by blast
  have b: "(30 \<le> ?age \<and> ?age \<le> 60) \<or> ?age = 0 \<longrightarrow> age_check p r self = (Inr r, self)"
    using quiet [of r self] by auto
  from a b before pass member show ?thesis by blast
qed

theorem age_check_escalates_witness:
  "PURCHASER_AGE_FROM_ID young_buyer \<noteq> 0 \<and> PURCHASER_AGE_FROM_ID young_buyer < 30
   \<and> age_check young_buyer LOW new_assessor
       = (Inr MEDIUM, \<lparr>REASONS = [''Age risk (25 years)'']\<rparr>)
   \<and> 30 \<le> PURCHASER_AGE_FROM_ID consistent_buyer \<and> PURCHASER_AGE_FROM_ID consistent_buyer \<le> 60
   \<and> age_check consistent_buyer LOW new_assessor = (Inr LOW, new_assessor)"
proof -
  have y: "PURCHASER_AGE_FROM_ID young_buyer = 25"
    by (simp add: young_buyer_def consistent_buyer_def main_buyer_data_def)
  have c: "PURCHASER_AGE_FROM_ID consistent_buyer = 40"
    by (simp add: consistent_buyer_def main_buyer_data_def)
  from age_check_escalates [of young_buyer LOW new_assessor "[]"] y
  obtain r' where r': "increase_risk LOW 1 = Inr r'"
    and a: "age_check young_buyer LOW new_assessor
        = (Inr r', append_reason new_assessor (age_reason 25))"
    by auto
  have "increase_risk LOW 1 = Inr MEDIUM" by code_simp
  with r' have "r' = MEDIUM" by simp
  moreover have "append_reason new_assessor (age_reason 25)
      = \<lparr>REASONS = [''Age risk (25 years)'']\<rparr>" by code_simp
  ultimately have ya: "age_check young_buyer LOW new_assessor
      = (Inr MEDIUM, \<lparr>REASONS = [''Age risk (25 years)'']\<rparr>)" using a by simp
  from age_check_escalates [of consistent_buyer LOW new_assessor "[]"] c
  have ca: "age_check consistent_buyer LOW new_assessor = (Inr LOW, new_assessor)" by simp
  from y c ya ca show ?thesis by simp
qed

text \<open>
  The claim as it was stated fails at the age 0: it is below 30, and the age check
  (\<^verbatim>\<open>if age and ...\<close>) neither escalates nor appends a reason.
\<close>

theorem age_zero_counterexample:
  "PURCHASER_AGE_FROM_ID zero_age_buyer < 30
   \<and> increase_risk LOW 1 = Inr MEDIUM
   \<and> age_check zero_age_buyer LOW new_assessor = (Inr LOW, new_assessor)
   \<and> apply_general_checks new_assessor zero_age_buyer LOW [] = (Inr LOW, new_assessor)"
  by code_simp

subsection \<open>The price and deposit table of the non-owner branch (C3)\<close>



subsection \<open>The owner branch: value ratio and equity (C4)\<close>

text \<open>What the equity checks and the two party checks of the owner branch return.\<close>

lemma equity_checks_returns:
  obtains t0 s0 ys where "equity_checks e b s = (Inr t0, s0)" and "REASONS s0 = REASONS s @ ys"
proof -
  have "(0::int) \<le> 2" and "(0::int) \<le> 1" by simp_all
  then obtain t2 t1 where "increase_risk b 2 = Inr t2" and "increase_risk b 1 = Inr t1"
    using increase_risk_total by metis
  then have "\<exists>t0 s0 ys. equity_checks e b s = (Inr t0, s0) \<and> REASONS s0 = REASONS s @ ys"
    by (simp add: equity_checks_def escalate_with_reason_def)
  then show ?thesis using that by blast
qed



lemma assess_homeowner_unfold:
  "assess_homeowner self p =
     and_then
       (and_then
          (and_then
             (equity_checks (pct_of (PRIMARY_RESIDENCE_EQUITY p) (PROPERTY_PRICE p))
                (value_ratio_check (PRIMARY_RESIDENCE_VALUE_FROM_AVM p) (PROPERTY_PRICE p)) self)
             (\<lambda>t. related_parties_check_owner p (t, [])))
          (missing_coowner_check p))
       (\<lambda>(t, a) s. (Inr (t, a @ [''Verify property ownership and equity'']), s))"
  by (simp add: assess_homeowner_def Let_def)



subsection \<open>The related-party check of the owner branch (C8)\<close>

lemma missing_coowner_check_returns:
  obtains t' s' ys where "missing_coowner_check p (t, a) s = (Inr (t', a), s')"
    and "REASONS s' = REASONS s @ ys"
proof -
  have "(0::int) \<le> 2" by simp
  then obtain t2 where "increase_risk t 2 = Inr t2" by (rule increase_risk_total)
  then have "\<exists>t' s' ys. missing_coowner_check p (t, a) s = (Inr (t', a), s')
      \<and> REASONS s' = REASONS s @ ys"
    by (simp add: missing_coowner_check_def escalate_with_reason_def)
  then show ?thesis using that by blast
qed

text \<open>
  Claim C8. In the owner branch, whenever the related-party predicate holds, the tier is
  escalated by 1 step and then by 2 more steps, whatever the price (3 steps in total on
  the ladder), the reason "Same last name different addresses." is appended to the
  reasons and the action "Add related parties to APS" to the actions. The branch runs the
  check on the tier the equity checks return and hands its result to the
  missing-co-owner check.
\<close>

theorem owner_related_parties_escalation:
  assumes related: "has_related_parties_not_on_aps p = Inr True"
  shows "(\<exists>t1 t3. increase_risk t 1 = Inr t1 \<and> increase_risk t1 2 = Inr t3
          \<and> related_parties_check_owner p (t, actions) self
              = (Inr (t3, actions @ [''Add related parties to APS'']),
                 append_reason self ''Same last name different addresses.''))
       \<and> (\<forall>i. index_of risk_order t = Some i \<longrightarrow>
            (\<exists>t1. increase_risk t 1 = Inr t1
               \<and> increase_risk t1 2 = Inr (risk_order ! min (i + 3) (length risk_order - 1))))
       \<and> (\<exists>t0 s0 t1 t3 tier self'.
            equity_checks (pct_of (PRIMARY_RESIDENCE_EQUITY p) (PROPERTY_PRICE p))
              (value_ratio_check (PRIMARY_RESIDENCE_VALUE_FROM_AVM p) (PROPERTY_PRICE p))
              engine = (Inr t0, s0)
          \<and> increase_risk t0 1 = Inr t1 \<and> increase_risk t1 2 = Inr t3
          \<and> missing_coowner_check p (t3, [''Add related parties to APS''])
               (append_reason s0 ''Same last name different addresses.'')
              = (Inr (tier, [''Add related parties to APS'']), self')
          \<and> assess_homeowner engine p
              = (Inr (tier, [''Add related parties to APS'',
                             ''Verify property ownership and equity'']), self')
          \<and> ''Same last name different addresses.'' \<in> set (REASONS self'))"
proof -
  have one: "(0::int) \<le> 1" and two: "(0::int) \<le> 2" by simp_all
  have block: "\<exists>t1 t3. increase_risk u 1 = Inr t1 \<and> increase_risk t1 2 = Inr t3
      \<and> related_parties_check_owner p (u, a) s
          = (Inr (t3, a @ [''Add related parties to APS'']),
             append_reason s ''Same last name different addresses.'')" for u a s
  proof -
    obtain t1 where t1: "increase_risk u 1 = Inr t1" by (rule increase_risk_total [OF one])
    obtain t3 where t3: "increase_risk t1 2 = Inr t3" by (rule increase_risk_total [OF two])
    show ?thesis using t1 t3 related by (simp add: related_parties_check_owner_def)
  qed
  have three: "\<exists>t1. increase_risk t 1 = Inr t1
      \<and> increase_risk t1 2 = Inr (risk_order ! min (i + 3) (length risk_order - 1))"
    if i: "index_of risk_order t = Some i" for i
  proof -
    have bound: "i \<le> 4" by (rule index_of_bound [OF i])
    have t1: "increase_risk t 1 = Inr (risk_order ! min (i + 1) 4)"
      using increase_risk_at [OF i bound one] by simp
    have j: "index_of risk_order (risk_order ! min (i + 1) 4) = Some (min (i + 1) 4)"
      by (rule index_of_nth) simp
    have "increase_risk (risk_order ! min (i + 1) 4) 2
        = Inr (risk_order ! min (min (i + 1) 4 + nat 2) 4)"
      by (rule increase_risk_at [OF j _ two]) simp
    moreover have "min (min (i + 1) 4 + nat 2) 4 = min (i + 3) (length risk_order - 1)"
      by (auto simp: risk_order_def min_def)
    ultimately show ?thesis using t1 by simp
  qed
  have branch: "\<exists>t0 s0 t1 t3 tier self'.
            equity_checks (pct_of (PRIMARY_RESIDENCE_EQUITY p) (PROPERTY_PRICE p))
              (value_ratio_check (PRIMARY_RESIDENCE_VALUE_FROM_AVM p) (PROPERTY_PRICE p))
              engine = (Inr t0, s0)
          \<and> increase_risk t0 1 = Inr t1 \<and> increase_risk t1 2 = Inr t3
          \<and> missing_coowner_check p (t3, [''Add related parties to APS''])
               (append_reason s0 ''Same last name different addresses.'')
              = (Inr (tier, [''Add related parties to APS'']), self')
          \<and> assess_homeowner engine p
              = (Inr (tier, [''Add related parties to APS'',
                             ''Verify property ownership and equity'']), self')
          \<and> ''Same last name different addresses.'' \<in> set (REASONS self')"
  proof -
    let ?e = "equity_checks (pct_of (PRIMARY_RESIDENCE_EQUITY p) (PROPERTY_PRICE p))
              (value_ratio_check (PRIMARY_RESIDENCE_VALUE_FROM_AVM p) (PROPERTY_PRICE p)) engine"
    obtain t0 s0 ys where e: "?e = (Inr t0, s0)" by (rule equity_checks_returns)
    from block [of t0 "[]" s0] obtain t1 t3
      where t1: "increase_risk t0 1 = Inr t1" and t3: "increase_risk t1 2 = Inr t3"
        and r: "related_parties_check_owner p (t0, []) s0
          = (Inr (t3, [''Add related parties to APS'']),
             append_reason s0 ''Same last name different addresses.'')"
      by auto
    let ?s1 = "append_reason s0 ''Same last name different addresses.''"
    obtain tier self' zs
      where m: "missing_coowner_check p (t3, [''Add related parties to APS'']) ?s1
          = (Inr (tier, [''Add related parties to APS'']), self')"
        and z: "REASONS self' = REASONS ?s1 @ zs"
      by (rule missing_coowner_check_returns)
    have a: "assess_homeowner engine p
        = (Inr (tier, [''Add related parties to APS'',
                       ''Verify property ownership and equity'']), self')"
      unfolding assess_homeowner_unfold e by (simp add: r m)
    have "''Same last name different addresses.'' \<in> set (REASONS self')"
      using z by simp
    with e t1 t3 m a show ?thesis by blast
  qed
  from block [of t actions self] three branch show ?thesis by blast
qed

theorem owner_related_parties_escalation_witness:
  "has_related_parties_not_on_aps related_party_owner = Inr True
   \<and> related_parties_check_owner related_party_owner (LOW, []) new_assessor
       = (Inr (VERY_HIGH, [''Add related parties to APS'']),
          \<lparr>REASONS = [''Same last name different addresses.'']\<rparr>)"
proof -
  have h: "has_related_parties_not_on_aps related_party_owner = Inr True" by code_simp
  from owner_related_parties_escalation [OF h, of LOW "[]" new_assessor]
  obtain t1 t3 where t1: "increase_risk LOW 1 = Inr t1" and t3: "increase_risk t1 2 = Inr t3"
    and r: "related_parties_check_owner related_party_owner (LOW, []) new_assessor
        = (Inr (t3, [] @ [''Add related parties to APS'']),
           append_reason new_assessor ''Same last name different addresses.'')"
    by blast
  have "increase_risk LOW 1 = Inr MEDIUM" by code_simp
  with t1 have "t1 = MEDIUM" by simp
  moreover have "increase_risk MEDIUM 2 = Inr VERY_HIGH" by code_simp
  ultimately have "t3 = VERY_HIGH" using t3 by simp
  moreover have "append_reason new_assessor ''Same last name different addresses.''
      = \<lparr>REASONS = [''Same last name different addresses.'']\<rparr>" by code_simp
  ultimately show ?thesis using h r by simp
qed

subsection \<open>When the assessment raises\<close>

text \<open>
  The related-party predicate is the only statement of the two branch evaluators that can
  raise, the general checks never raise, and the risk factors are computed last.
\<close>

lemma related_parties_check_non_owner_returns:
  assumes "has_related_parties_not_on_aps p = Inr b"
  obtains t' a' where "related_parties_check_non_owner p price (t, a) = Inr (t', a')"
proof -
  have "(0::int) \<le> 1" by simp
  then obtain t1 where t1: "increase_risk t 1 = Inr t1" by (rule increase_risk_total)
  have "(0::int) \<le> 2" by simp
  then obtain t3 where "increase_risk t1 2 = Inr t3" by (rule increase_risk_total)
  with t1 assms have "\<exists>t' a'. related_parties_check_non_owner p price (t, a) = Inr (t', a')"
    by (simp add: related_parties_check_non_owner_def)
  then show ?thesis using that by blast
qed

lemma assess_non_homeowner_returns:
  assumes "has_related_parties_not_on_aps p = Inr b"
  shows "\<not> isl (assess_non_homeowner p)"
proof -
  let ?price = "PROPERTY_PRICE p"
  let ?t = "if has_high_risk_overrides p then HIGH
      else price_tier_checks NO_RISK ?price (pct_of (PURCHASER_DEPOSIT_PAID_FROM_APS p) ?price)"
  obtain t' a' where "related_parties_check_non_owner p ?price (?t, []) = Inr (t', a')"
    by (rule related_parties_check_non_owner_returns [OF assms])
  then show ?thesis by (simp add: assess_non_homeowner_def Let_def)
qed

lemma assess_non_homeowner_raises:
  assumes "has_related_parties_not_on_aps p = Inl e"
  shows "assess_non_homeowner p = Inl e"
  using assms
  by (simp add: assess_non_homeowner_def related_parties_check_non_owner_def Let_def)

lemma assess_homeowner_returns:
  assumes "has_related_parties_not_on_aps p = Inr b"
  shows "\<not> isl (fst (assess_homeowner self p))"
proof -
  let ?e = "equity_checks (pct_of (PRIMARY_RESIDENCE_EQUITY p) (PROPERTY_PRICE p))
      (value_ratio_check (PRIMARY_RESIDENCE_VALUE_FROM_AVM p) (PROPERTY_PRICE p)) self"
  obtain t0 s0 ys where e: "?e = (Inr t0, s0)" by (rule equity_checks_returns)
  have "(0::int) \<le> 1" by simp
  then obtain t1 where t1: "increase_risk t0 1 = Inr t1" by (rule increase_risk_total)
  have "(0::int) \<le> 2" by simp
  then obtain t3 where t3: "increase_risk t1 2 = Inr t3" by (rule increase_risk_total)
  let ?a = "if b then [''Add related parties to APS''] else []"
  obtain t' s' where r: "related_parties_check_owner p (t0, []) s0 = (Inr (t', ?a), s')"
    using assms t1 t3 by (cases b) (simp_all add: related_parties_check_owner_def)
  obtain t'' s'' zs where m: "missing_coowner_check p (t', ?a) s' = (Inr (t'', ?a), s'')"
    by (rule missing_coowner_check_returns)
  show ?thesis unfolding assess_homeowner_unfold e using r m by simp
qed

lemma assess_homeowner_raises:
  assumes "has_related_parties_not_on_aps p = Inl e"
  shows "fst (assess_homeowner self p) = Inl e"
proof -
  let ?e = "equity_checks (pct_of (PRIMARY_RESIDENCE_EQUITY p) (PROPERTY_PRICE p))
      (value_ratio_check (PRIMARY_RESIDENCE_VALUE_FROM_AVM p) (PROPERTY_PRICE p)) self"
  obtain t0 s0 ys where e: "?e = (Inr t0, s0)" by (rule equity_checks_returns)
  have "related_parties_check_owner p (t0, []) s0 = (Inl e, s0)"
    using assms by (simp add: related_parties_check_owner_def)
  then show ?thesis unfolding assess_homeowner_unfold e by simp
qed

lemma apply_general_checks_returns:
  obtains t s' where "apply_general_checks s p r a = (Inr t, s')"
proof -
  let ?m = "foldl and_then (Inr r, s) (map (\<lambda>c. c p) general_checks)"
  have "\<forall>c \<in> set (map (\<lambda>c. c p) general_checks). \<forall>r s. \<not> isl (fst (c r s))"
    using check_returns by auto
  then have "\<not> isl (fst ?m)" by (intro foldl_returns) simp_all
  then obtain t s' where "?m = (Inr t, s')" by (cases ?m; cases "fst ?m") auto
  then show ?thesis using that by (simp add: general_checks_unfold)
qed

lemma assess_buyer_risk_raises:
  assumes "has_related_parties_not_on_aps p = Inl e"
  shows "fst (assess_buyer_risk self p) = Inl e"
proof -
  let ?s = "self\<lparr>REASONS := []\<rparr>"
  let ?b = "if \<not> check_ownership p then (assess_non_homeowner p, ?s) else assess_homeowner ?s p"
  have "fst ?b = Inl e"
    using assess_non_homeowner_raises [OF assms] assess_homeowner_raises [OF assms] by simp
  then obtain s1 where "?b = (Inl e, s1)" by (cases ?b) auto
  then show ?thesis by (simp add: assess_buyer_risk_def Let_def)
qed

lemma assess_buyer_risk_after_branch:
  assumes "has_related_parties_not_on_aps p = Inr b"
  obtains s t a where
    "assess_buyer_risk self p =
       (case get_risk_factors p of
          Inl e \<Rightarrow> (Inl e, s)
        | Inr factors \<Rightarrow>
            (Inr \<lparr>risk_level = t, suggested_actions = a, risk_factors = factors,
                  reasons = REASONS s\<rparr>, s))"
proof -
  let ?s = "self\<lparr>REASONS := []\<rparr>"
  let ?b = "if \<not> check_ownership p then (assess_non_homeowner p, ?s) else assess_homeowner ?s p"
  have "\<not> isl (fst ?b)"
    using assess_non_homeowner_returns [OF assms] assess_homeowner_returns [OF assms] by simp
  then obtain t0 a s1 where b: "?b = (Inr (t0, a), s1)"
    by (cases ?b; cases "fst ?b") auto
  obtain t s where g: "apply_general_checks s1 p t0 a = (Inr t, s)"
    by (rule apply_general_checks_returns)
  have "assess_buyer_risk self p =
       (case get_risk_factors p of
          Inl e \<Rightarrow> (Inl e, s)
        | Inr factors \<Rightarrow>
            (Inr \<lparr>risk_level = t, suggested_actions = a, risk_factors = factors,
                  reasons = REASONS s\<rparr>, s))"
    using b g by (simp add: assess_buyer_risk_def Let_def)
  then show ?thesis by (rule that)
qed

subsection \<open>An empty agreement name (C7)\<close>

text \<open>
  Claim C7. For every profile whose agreement name is the empty string, the related-party
  predicate evaluates \<^verbatim>\<open>"".split()[-1]\<close> and raises an index error; both branch evaluators
  call the predicate, so each of them raises it, and the whole assessment raises it
  instead of returning a verdict. An assessment that returns a verdict therefore had an
  agreement name with at least one word, in particular a non-empty one.
\<close>

theorem empty_agreement_name_raises:
  assumes "PURCHASER_NAME_FROM_APS p = []"
  shows "py_split (PURCHASER_NAME_FROM_APS p) = []
       \<and> last_word (PURCHASER_NAME_FROM_APS p) = Inl IndexError
       \<and> has_related_parties_not_on_aps p = Inl IndexError
       \<and> assess_non_homeowner p = Inl IndexError
       \<and> fst (assess_homeowner self p) = Inl IndexError
       \<and> fst (assess_buyer_risk self p) = Inl IndexError
       \<and> (\<forall>q engine v s'. assess_buyer_risk engine q = (Inr v, s') \<longrightarrow>
             py_split (PURCHASER_NAME_FROM_APS q) \<noteq> [] \<and> PURCHASER_NAME_FROM_APS q \<noteq> [])"
proof -
  have no_word: "has_related_parties_not_on_aps q = Inl IndexError"
    if "py_split (PURCHASER_NAME_FROM_APS q) = []" for q
    using that by (simp add: has_related_parties_not_on_aps_def last_word_def py_getitem_def)
  have split: "py_split (PURCHASER_NAME_FROM_APS p) = []"
    using assms by (simp add: py_split_def)
  have word: "last_word (PURCHASER_NAME_FROM_APS p) = Inl IndexError"
    using split by (simp add: last_word_def py_getitem_def)
  note related = no_word [OF split]
  have precondition: "py_split (PURCHASER_NAME_FROM_APS q) \<noteq> [] \<and> PURCHASER_NAME_FROM_APS q \<noteq> []"
    if v: "assess_buyer_risk engine q = (Inr v, s')" for q engine v s'
  proof -
    have "py_split (PURCHASER_NAME_FROM_APS q) \<noteq> []"
    proof
      assume "py_split (PURCHASER_NAME_FROM_APS q) = []"
      from assess_buyer_risk_raises [OF no_word [OF this], of engine] v show False by simp
    qed
    then show ?thesis by (auto simp: py_split_def)
  qed
  from split word related assess_non_homeowner_raises [OF related]
    assess_homeowner_raises [OF related] assess_buyer_risk_raises [OF related] precondition
  show ?thesis by blast
qed

theorem empty_agreement_name_raises_witness:
  "PURCHASER_NAME_FROM_APS unnamed_buyer = []
   \<and> assess_buyer_risk new_assessor unnamed_buyer = (Inl IndexError, new_assessor)
   \<and> (\<exists>v s'. assess_buyer_risk new_assessor consistent_buyer = (Inr v, s')
        \<and> PURCHASER_NAME_FROM_APS consistent_buyer \<noteq> [])"
proof -
  have h: "PURCHASER_NAME_FROM_APS unnamed_buyer = []" by code_simp
  have s: "snd (assess_buyer_risk new_assessor unnamed_buyer) = new_assessor" by code_simp
  from empty_agreement_name_raises [OF h, of new_assessor]
  have "fst (assess_buyer_risk new_assessor unnamed_buyer) = Inl IndexError" by blast
  with s have a: "assess_buyer_risk new_assessor unnamed_buyer = (Inl IndexError, new_assessor)"
    by (cases "assess_buyer_risk new_assessor unnamed_buyer") simp
  have "\<not> isl (fst (assess_buyer_risk new_assessor consistent_buyer))" by code_simp
  then obtain v s' where v: "assess_buyer_risk new_assessor consistent_buyer = (Inr v, s')"
    by (cases "assess_buyer_risk new_assessor consistent_buyer";
        cases "fst (assess_buyer_risk new_assessor consistent_buyer)") auto
  with empty_agreement_name_raises [OF h, of new_assessor]
  have "PURCHASER_NAME_FROM_APS consistent_buyer \<noteq> []" by blast
  with h a v show ?thesis by blast
qed

subsection \<open>A subject price of zero (C5)\<close>

text \<open>
  Claim C5, as amended. For every profile whose subject price is exactly 0, the risk
  factors raise Python's own \<^verbatim>\<open>ZeroDivisionError\<close> (the engine has no error type of its
  own): the home-value-to-price ratio, the first of the two unguarded divisions by the
  price, raises it, and the deposit percentage after it would raise it too. So nothing
  falls back to a default and the assessment returns no verdict: it raises
  \<^verbatim>\<open>ZeroDivisionError\<close>, unless the related-party predicate has raised before. With any
  other price the risk factors raise nothing. The percentages of the two branch
  evaluators are guarded: with a price that is not positive they are 0.
\<close>

theorem zero_price_raises:
  "(PROPERTY_PRICE p = 0 \<longrightarrow>
        home_value_to_price p = Inl ZeroDivisionError
      \<and> reported_deposit_pct p = Inl ZeroDivisionError
      \<and> get_risk_factors p = Inl ZeroDivisionError
      \<and> (\<exists>e. fst (assess_buyer_risk self p) = Inl e)
      \<and> (\<forall>b. has_related_parties_not_on_aps p = Inr b \<longrightarrow>
            fst (assess_buyer_risk self p) = Inl ZeroDivisionError))
   \<and> (PROPERTY_PRICE p \<noteq> 0 \<longrightarrow> \<not> isl (get_risk_factors p))
   \<and> (PROPERTY_PRICE p \<le> 0 \<longrightarrow>
        pct_of (PURCHASER_DEPOSIT_PAID_FROM_APS p) (PROPERTY_PRICE p) = 0
      \<and> pct_of (PRIMARY_RESIDENCE_EQUITY p) (PROPERTY_PRICE p) = 0)"
proof (intro conjI impI allI)
  assume zero: "PROPERTY_PRICE p = 0"
  show ratio: "home_value_to_price p = Inl ZeroDivisionError"
    using zero by (simp add: home_value_to_price_def py_truediv_def)
  show "reported_deposit_pct p = Inl ZeroDivisionError"
    using zero by (simp add: reported_deposit_pct_def py_truediv_def)
  show factors: "get_risk_factors p = Inl ZeroDivisionError"
    using ratio by (simp add: get_risk_factors_def Let_def)
  have after: "fst (assess_buyer_risk self p) = Inl ZeroDivisionError"
    if "has_related_parties_not_on_aps p = Inr b" for b
  proof -
    from that obtain s t a where
      "assess_buyer_risk self p =
         (case get_risk_factors p of
            Inl e \<Rightarrow> (Inl e, s)
          | Inr factors \<Rightarrow>
              (Inr \<lparr>risk_level = t, suggested_actions = a, risk_factors = factors,
                    reasons = REASONS s\<rparr>, s))"
      by (rule assess_buyer_risk_after_branch)
    then show ?thesis by (simp add: factors)
  qed
  show "\<exists>e. fst (assess_buyer_risk self p) = Inl e"
  proof (cases "has_related_parties_not_on_aps p")
    case (Inl e)
    then show ?thesis using assess_buyer_risk_raises by blast
  next
    case (Inr b)
    then show ?thesis using after by blast
  qed
  fix b assume "has_related_parties_not_on_aps p = Inr b"
  then show "fst (assess_buyer_risk self p) = Inl ZeroDivisionError" by (rule after)
next
  assume "PROPERTY_PRICE p \<noteq> 0"
  then show "\<not> isl (get_risk_factors p)"
    by (simp add: get_risk_factors_def home_value_to_price_def reported_deposit_pct_def
        py_truediv_def Let_def)
next
  assume "PROPERTY_PRICE p \<le> 0"
  then show "pct_of (PURCHASER_DEPOSIT_PAID_FROM_APS p) (PROPERTY_PRICE p) = 0"
    and "pct_of (PRIMARY_RESIDENCE_EQUITY p) (PROPERTY_PRICE p) = 0"
    by (simp_all add: pct_of_def)
qed

theorem zero_price_raises_witness:
  "PROPERTY_PRICE zero_price_buyer = 0
   \<and> has_related_parties_not_on_aps zero_price_buyer = Inr False
   \<and> get_risk_factors zero_price_buyer = Inl ZeroDivisionError
   \<and> fst (assess_buyer_risk new_assessor zero_price_buyer) = Inl ZeroDivisionError
   \<and> PROPERTY_PRICE consistent_buyer \<noteq> 0
   \<and> \<not> isl (get_risk_factors consistent_buyer)"
proof -
  have z: "PROPERTY_PRICE zero_price_buyer = 0"
    and r: "has_related_parties_not_on_aps zero_price_buyer = Inr False"
    and c: "PROPERTY_PRICE consistent_buyer \<noteq> 0"
    by code_simp+
  from zero_price_raises [of zero_price_buyer new_assessor] z r
  have 1: "get_risk_factors zero_price_buyer = Inl ZeroDivisionError"
    and 2: "fst (assess_buyer_risk new_assessor zero_price_buyer) = Inl ZeroDivisionError"
    by blast+
  from zero_price_raises [of consistent_buyer new_assessor] c
  have 3: "\<not> isl (get_risk_factors consistent_buyer)" by blast
  from z r c 1 2 3 show ?thesis by blast
qed

text \<open>
  The claim as it was stated fails in its second half: at a price of 0 the
  home-value-to-price ratio, a division other than the deposit percentage, is not guarded
  and does not fall back to 0; it raises, and it raises first.
\<close>

theorem unguarded_ratio_counterexample:
  "PROPERTY_PRICE zero_price_buyer = 0
   \<and> home_value_to_price zero_price_buyer = Inl ZeroDivisionError
   \<and> home_value_to_price zero_price_buyer \<noteq> Inr 0
   \<and> assess_buyer_risk new_assessor zero_price_buyer
       = (Inl ZeroDivisionError, \<lparr>REASONS = [''Very low equity (<5%)'']\<rparr>)"
  by code_simp

subsection \<open>Where the reasons live (C10)\<close>

text \<open>
  Claim C10, as amended. The reasons of a verdict are accumulated in the attribute
  \<^verbatim>\<open>REASONS\<close> of the engine object: \<^verbatim>\<open>assess_buyer_risk\<close> resets it to the empty list when
  it starts, the owner branch and the general checks append to it, and the verdict's
  reasons are its content when the call returns. In a sequential run the result of a
  call therefore depends on the profile only, not on what an earlier call left in the
  attribute. (What concurrent calls on one object do to each other is outside this
  model.)
\<close>

theorem reasons_on_engine_object:
  "assess_buyer_risk self p = assess_buyer_risk self' p
   \<and> assess_buyer_risk self p = assess_buyer_risk (self\<lparr>REASONS := []\<rparr>) p
   \<and> (\<forall>v s'. assess_buyer_risk self p = (Inr v, s') \<longrightarrow> reasons v = REASONS s')"
proof (intro conjI allI impI)
  have reset: "self\<lparr>REASONS := []\<rparr> = self'\<lparr>REASONS := []\<rparr>" by simp
  show "assess_buyer_risk self p = assess_buyer_risk self' p"
    unfolding assess_buyer_risk_def reset by (rule refl)
  show "assess_buyer_risk self p = assess_buyer_risk (self\<lparr>REASONS := []\<rparr>) p"
    by (simp add: assess_buyer_risk_def)
next
  fix v s' assume "assess_buyer_risk self p = (Inr v, s')"
  then show "reasons v = REASONS s'" by (rule assess_buyer_risk_returns)
qed

theorem reasons_on_engine_object_witness:
  "(\<exists>v s'. assess_buyer_risk new_assessor main_buyer_data = (Inr v, s')
       \<and> assess_buyer_risk s' main_buyer_data = (Inr v, s')
       \<and> reasons v = REASONS s')"
proof -
  have "\<not> isl (fst (assess_buyer_risk new_assessor main_buyer_data))" by code_simp
  then obtain v s' where v: "assess_buyer_risk new_assessor main_buyer_data = (Inr v, s')"
    by (cases "assess_buyer_risk new_assessor main_buyer_data";
        cases "fst (assess_buyer_risk new_assessor main_buyer_data)") auto
  from reasons_on_engine_object [of new_assessor main_buyer_data s'] v
  have "assess_buyer_risk s' main_buyer_data = (Inr v, s')" and "reasons v = REASONS s'"
    by auto
  with v show ?thesis by blast
qed

text \<open>
  The claim as it was stated fails: the reasons are stored on the engine object, which
  a call leaves changed.
\<close>

theorem reasons_stored_on_engine_counterexample:
  "REASONS new_assessor = []
   \<and> REASONS (snd (assess_buyer_risk new_assessor main_buyer_data))
       = [''Missing co-owner on APS'',
          ''Name mismatch between APS and HOUSESIGMA'',
          ''Name mismatch between ID and HOUSESIGMA'',
          ''Address mismatch APS and LAND REGISTRY'',
          ''Deposit paid by others'', ''Multiple mortgage parties'']
   \<and> snd (assess_buyer_risk new_assessor main_buyer_data) \<noteq> new_assessor"
  by code_simp

end
